theory Spec2Isabelle
  imports Complex_Main "HOL-Library.AList"
begin

section \<open>Python strings\<close>

text \<open>
  Python text is a sequence of code points. The development reads a \<^typ>\<open>string\<close>
  as a sequence of code points below 256 (one \<^typ>\<open>char\<close> per code point), so
  \<open>length\<close> is Python's \<open>len\<close> on such text. Within that range
  \<open>str.isspace\<close>, the regular-expression class \<open>\s\<close>, \<open>str.strip()\<close> and
  \<open>str.split()\<close> agree on the white space characters: code points 9 to 13, 28 to 32,
  133 and 160.
\<close>

definition is_space :: "char \<Rightarrow> bool" where
  "is_space c = (let n = (of_char c :: nat) in
     (9 \<le> n \<and> n \<le> 13) \<or> (28 \<le> n \<and> n \<le> 32) \<or> n = 133 \<or> n = 160)"

text \<open>\<open>s.lstrip()\<close>, \<open>s.rstrip()\<close> and \<open>s.strip()\<close>.\<close>

definition lstrip :: "string \<Rightarrow> string" where
  "lstrip s = dropWhile is_space s"

definition rstrip :: "string \<Rightarrow> string" where
  "rstrip s = rev (dropWhile is_space (rev s))"

definition strip :: "string \<Rightarrow> string" where
  "strip s = rstrip (lstrip s)"

text \<open>\<open>sep.join(xs)\<close>.\<close>

fun join :: "string \<Rightarrow> string list \<Rightarrow> string" where
  "join sep [] = []"
| "join sep [x] = x"
| "join sep (x # y # ys) = x @ sep @ join sep (y # ys)"

text \<open>
  \<open>s.split()\<close> without arguments: the maximal runs of characters that are not white
  space. The first argument is the word read so far.
\<close>

fun split_words :: "string \<Rightarrow> string \<Rightarrow> string list" where
  "split_words w [] = (if w = [] then [] else [w])"
| "split_words w (c # cs) =
     (if is_space c then (if w = [] then split_words [] cs else w # split_words [] cs)
      else split_words (w @ [c]) cs)"

definition py_split :: "string \<Rightarrow> string list" where
  "py_split s = split_words [] s"

text \<open>The slice \<open>xs[i:]\<close>; a negative \<open>i\<close> counts from the end.\<close>

definition slice_from :: "int \<Rightarrow> 'a list \<Rightarrow> 'a list" where
  "slice_from i xs = (if i < 0 then drop (length xs - nat (- i)) xs else drop (nat i) xs)"

text \<open>\<open>str(n)\<close> for an integer: its decimal digits.\<close>

definition digit_char :: "nat \<Rightarrow> char" where
  "digit_char d = char_of (48 + d)"

fun str_nat :: "nat \<Rightarrow> string" where
  "str_nat n = (if n < 10 then [digit_char n] else str_nat (n div 10) @ [digit_char (n mod 10)])"

declare str_nat.simps [simp del]

definition str_int :: "int \<Rightarrow> string" where
  "str_int i = (if i < 0 then CHR ''-'' # str_nat (nat (- i)) else str_nat (nat i))"

text \<open>
  \<open>re.sub(r'\s+', ' ', s)\<close>: every maximal run of white space becomes one blank.
\<close>

fun collapse_ws :: "string \<Rightarrow> string" where
  "collapse_ws [] = []"
| "collapse_ws [c] = (if is_space c then [CHR '' ''] else [c])"
| "collapse_ws (c # d # cs) =
     (if is_space c
      then (if is_space d then collapse_ws (d # cs) else CHR '' '' # collapse_ws (d # cs))
      else c # collapse_ws (d # cs))"

section \<open>The chunker (infra/file_processing/chunking.py)\<close>

subsection \<open>Chunks and configuration\<close>

text \<open>Values of the metadata dictionary; \<open>MOther\<close> stands for any other value.\<close>

datatype mval = MStr string | MInt int | MBool bool | MOther nat

text \<open>
  A dictionary with string keys, in insertion order; \<^const>\<open>AList.update\<close> overwrites
  an existing key in place and appends a new one, as a Python dict does.
\<close>

type_synonym metadata = "(string \<times> mval) list"

text \<open>The dataclass \<open>DocumentChunk\<close>; its field \<open>text\<close> is \<open>chunk_text\<close> here.\<close>

record DocumentChunk =
  chunk_id :: string
  chunk_text :: string
  chunk_index :: int
  start_char :: int
  end_char :: int
  token_count :: int
  metadata :: metadata

text \<open>The attributes set by \<open>DocumentChunker.__init__\<close>.\<close>

record chunker =
  chunk_size :: int
  overlap_size :: int
  min_chunk_size :: int

definition default_chunker :: chunker where
  "default_chunker = \<lparr>chunk_size = 512, overlap_size = 50, min_chunk_size = 100\<rparr>"

subsection \<open>Helpers of \<open>DocumentChunker\<close>\<close>

definition estimate_tokens :: "string \<Rightarrow> int" where
  "estimate_tokens t = max 1 (int (length t) div 4)"

definition get_overlap_text :: "chunker \<Rightarrow> string \<Rightarrow> string" where
  "get_overlap_text cfg t =
     (let words = py_split t in
      if int (length words) \<le> overlap_size cfg then t
      else join '' '' (slice_from (- overlap_size cfg) words))"

definition create_chunk ::
  "string \<Rightarrow> string \<Rightarrow> int \<Rightarrow> int \<Rightarrow> int \<Rightarrow> metadata \<Rightarrow> DocumentChunk" where
  "create_chunk doc_id t idx start_c end_c md =
     \<lparr>chunk_id = doc_id @ ''#chunk_'' @ str_int idx,
      chunk_text = strip t,
      chunk_index = idx,
      start_char = start_c,
      end_char = end_c,
      token_count = estimate_tokens t,
      metadata = AList.update ''is_chunk'' (MBool True)
                  (AList.update ''chunk_index'' (MInt idx)
                    (AList.update ''parent_doc_id'' (MStr doc_id) md))\<rparr>"

text \<open>
  The sentence pattern
  \<open>(?<=[.!?])\s+(?=[A-Z])|(?<=\.)\s+(?=\d)|(?<=[.!?])\s*\n+\s*\<close>.
  A match can only begin right after one of \<open>.\<close>, \<open>!\<close>, \<open>?\<close>, and each alternative
  then consumes the whole run of white space that begins there: the first when an upper
  case letter follows the run, the second when the run follows a full stop and a digit
  follows it, the third when the run holds a line feed. \<open>sentence_boundary prev run rest\<close>
  decides whether the run \<open>run\<close> of white space, preceded by the character \<open>prev\<close> (none
  at the start of the text) and followed by \<open>rest\<close>, is matched.
\<close>

definition is_upper_AZ :: "char \<Rightarrow> bool" where
  "is_upper_AZ c = (let n = (of_char c :: nat) in 65 \<le> n \<and> n \<le> 90)"

definition is_digit :: "char \<Rightarrow> bool" where
  "is_digit c = (let n = (of_char c :: nat) in 48 \<le> n \<and> n \<le> 57)"

definition is_terminator :: "char \<Rightarrow> bool" where
  "is_terminator c = (c = CHR ''.'' \<or> c = CHR ''!'' \<or> c = CHR ''?'')"

definition starts_with :: "(char \<Rightarrow> bool) \<Rightarrow> string \<Rightarrow> bool" where
  "starts_with P s = (case s of [] \<Rightarrow> False | c # _ \<Rightarrow> P c)"

definition sentence_boundary :: "char option \<Rightarrow> string \<Rightarrow> string \<Rightarrow> bool" where
  "sentence_boundary prev run rest =
     (case prev of
        None \<Rightarrow> False
      | Some p \<Rightarrow>
          is_terminator p \<and> run \<noteq> [] \<and>
          (starts_with is_upper_AZ rest \<or>
           (p = CHR ''.'' \<and> starts_with is_digit rest) \<or>
           CHR 0x0A \<in> set run))"

text \<open>
  \<open>re.split(sentence_pattern, s)\<close>: \<open>piece\<close> is the piece read so far and \<open>prev\<close> the
  character before the rest of the input (none at the start of the text).
\<close>

function re_split_sentences :: "string \<Rightarrow> char option \<Rightarrow> string \<Rightarrow> string list" where
  "re_split_sentences piece prev [] = [piece]"
| "re_split_sentences piece prev (c # cs) =
     (let run = takeWhile is_space (c # cs); rest = dropWhile is_space (c # cs) in
      if sentence_boundary prev run rest
      then piece # re_split_sentences [] (Some (last run)) rest
      else re_split_sentences (piece @ [c]) (Some c) cs)"
  by pat_completeness auto
termination
proof (relation "measure (\<lambda>(piece, prev, s). length s)")
  show "wf (measure (\<lambda>(piece, prev, s). length s))" by simp
next
  fix piece :: string and prev :: "char option" and c :: char and cs run rest :: string
  assume r: "run = takeWhile is_space (c # cs)" "rest = dropWhile is_space (c # cs)"
    and b: "sentence_boundary prev run rest"
  from b have "run \<noteq> []" by (simp add: sentence_boundary_def split: option.splits)
  with r have "is_space c" by (auto split: if_splits)
  with r have "length rest \<le> length cs"
    by (simp add: length_dropWhile_le)
  then show "((([], Some (last run), rest)), (piece, prev, c # cs))
      \<in> measure (\<lambda>(piece, prev, s). length s)" by simp
next
  fix piece :: string and prev :: "char option" and c :: char and cs run rest :: string
  show "((piece @ [c], Some c, cs), (piece, prev, c # cs))
      \<in> measure (\<lambda>(piece, prev, s). length s)" by simp
qed

definition split_into_sentences :: "string \<Rightarrow> string list" where
  "split_into_sentences t =
     (let t1 = collapse_ws (strip t);
          sentences = re_split_sentences [] None t1
      in map strip (filter (\<lambda>s. strip s \<noteq> [] \<and> length (strip s) > 10) sentences))"

subsection \<open>\<open>DocumentChunker.chunk_document\<close>\<close>

text \<open>
  The variables of the loop: the chunks appended so far, \<open>current_chunk_text\<close>,
  \<open>current_start\<close>, \<open>chunk_index\<close>, and the running offset (\<open>sentence_start\<close> in
  \<open>DocumentChunker\<close>, \<open>para_start\<close> in \<open>SmartChunker\<close>).
\<close>

record loop_state =
  ls_chunks :: "DocumentChunk list"
  ls_text :: string
  ls_start :: int
  ls_index :: int
  ls_pos :: int

definition init_state :: loop_state where
  "init_state = \<lparr>ls_chunks = [], ls_text = [], ls_start = 0, ls_index = 0, ls_pos = 0\<rparr>"

text \<open>One iteration of \<open>for sentence in sentences\<close>.\<close>

definition sentence_step ::
  "chunker \<Rightarrow> string \<Rightarrow> metadata \<Rightarrow> loop_state \<Rightarrow> string \<Rightarrow> loop_state" where
  "sentence_step cfg doc_id md st sentence =
     (let potential_text = ls_text st @ (if ls_text st \<noteq> [] then '' '' else []) @ sentence;
          potential_tokens = estimate_tokens potential_text;
          st1 =
            (if potential_tokens > chunk_size cfg \<and> ls_text st \<noteq> [] then
               let chunk = create_chunk doc_id (ls_text st) (ls_index st)
                             (ls_start st) (ls_pos st) md;
                   overlap_text = get_overlap_text cfg (ls_text st)
               in st\<lparr>ls_chunks := ls_chunks st @ [chunk],
                      ls_text := overlap_text @ (if overlap_text \<noteq> [] then '' '' else [])
                                   @ sentence,
                      ls_start := max 0 (ls_pos st - int (length overlap_text)),
                      ls_index := ls_index st + 1\<rparr>
             else
               st\<lparr>ls_text := potential_text,
                    ls_start := (if strip potential_text = [] then ls_pos st
                                 else ls_start st)\<rparr>)
      in st1\<lparr>ls_pos := ls_pos st + int (length sentence) + 1\<rparr>)"

text \<open>The final chunk is appended only when it reaches \<open>min_chunk_size\<close>.\<close>

definition final_chunk ::
  "chunker \<Rightarrow> string \<Rightarrow> metadata \<Rightarrow> string \<Rightarrow> loop_state \<Rightarrow> DocumentChunk list" where
  "final_chunk cfg doc_id md t st =
     (if strip (ls_text st) \<noteq> [] \<and> int (length (strip (ls_text st))) \<ge> min_chunk_size cfg
      then ls_chunks st @ [create_chunk doc_id (ls_text st) (ls_index st)
                             (ls_start st) (int (length t)) md]
      else ls_chunks st)"

definition DocumentChunker_chunk_document ::
  "chunker \<Rightarrow> string \<Rightarrow> string \<Rightarrow> metadata \<Rightarrow> DocumentChunk list" where
  "DocumentChunker_chunk_document cfg doc_id t md =
     (if t = [] \<or> int (length (strip t)) < min_chunk_size cfg then []
      else
        let sentences = split_into_sentences t in
        if sentences = [] then []
        else final_chunk cfg doc_id md t
               (foldl (sentence_step cfg doc_id md) init_state sentences))"

subsection \<open>\<open>SmartChunker\<close>\<close>

text \<open>
  \<open>re.split(r'\n\s*\n', s)\<close>. A match begins at a line feed whose following run of white
  space holds another line feed, and ends with the last line feed of that run (the
  star is greedy); the white space after it stays in the next piece.
\<close>

definition after_last_lf :: "string \<Rightarrow> string" where
  "after_last_lf run = rev (takeWhile (\<lambda>c. c \<noteq> CHR 0x0A) (rev run))"

function re_split_paragraphs :: "string \<Rightarrow> string \<Rightarrow> string list" where
  "re_split_paragraphs piece [] = [piece]"
| "re_split_paragraphs piece (c # cs) =
     (let run = takeWhile is_space cs in
      if c = CHR 0x0A \<and> CHR 0x0A \<in> set run
      then piece # re_split_paragraphs [] (drop (length run - length (after_last_lf run)) cs)
      else re_split_paragraphs (piece @ [c]) cs)"
  by pat_completeness auto
termination
  by (relation "measure (\<lambda>(piece, s). length s)") auto

definition split_into_paragraphs :: "string \<Rightarrow> string list" where
  "split_into_paragraphs t =
     (let paragraphs = re_split_paragraphs [] (strip t)
      in map strip (filter (\<lambda>p. strip p \<noteq> [] \<and> length (strip p) > 50) paragraphs))"

text \<open>
  The loop \<open>for para_chunk in para_chunks\<close>: it rewrites \<open>chunk_id\<close> and two entries of
  the metadata of each chunk of the split paragraph, and counts \<open>chunk_index\<close> up. The
  field \<open>chunk_index\<close> of the chunk is not assigned.
\<close>

definition renumber_step ::
  "string \<Rightarrow> DocumentChunk list \<times> int \<Rightarrow> DocumentChunk \<Rightarrow> DocumentChunk list \<times> int" where
  "renumber_step doc_id acc para_chunk =
     (case acc of (cs, idx) \<Rightarrow>
        (cs @ [para_chunk\<lparr>chunk_id := doc_id @ ''#chunk_'' @ str_int idx,
                          metadata := AList.update ''chunk_index'' (MInt idx)
                            (AList.update ''parent_doc_id'' (MStr doc_id)
                              (metadata para_chunk))\<rparr>],
         idx + 1))"

text \<open>One iteration of \<open>for paragraph in paragraphs\<close>.\<close>

definition paragraph_step ::
  "chunker \<Rightarrow> string \<Rightarrow> metadata \<Rightarrow> loop_state \<Rightarrow> string \<Rightarrow> loop_state" where
  "paragraph_step cfg doc_id md st paragraph =
     (let potential_text =
            ls_text st @ (if ls_text st \<noteq> [] then [CHR 0x0A, CHR 0x0A] else []) @ paragraph;
          potential_tokens = estimate_tokens potential_text;
          st1 =
            (if potential_tokens > chunk_size cfg \<and> ls_text st \<noteq> [] then
               let chunk = create_chunk doc_id (ls_text st) (ls_index st)
                             (ls_start st) (ls_pos st) md;
                   chunks1 = ls_chunks st @ [chunk]
               in
                 if estimate_tokens paragraph > chunk_size cfg then
                   let para_chunks = DocumentChunker_chunk_document cfg
                         (doc_id @ ''_para_'' @ str_int (ls_index st)) paragraph md;
                       (chunks2, idx2) =
                         foldl (renumber_step doc_id) (chunks1, ls_index st) para_chunks
                   in st\<lparr>ls_chunks := chunks2,
                          ls_text := [],
                          ls_start := ls_pos st + int (length paragraph) + 2,
                          ls_index := idx2\<rparr>
                 else
                   st\<lparr>ls_chunks := chunks1,
                        ls_text := paragraph,
                        ls_start := ls_pos st,
                        ls_index := ls_index st + 1\<rparr>
             else
               st\<lparr>ls_text := potential_text,
                    ls_start := (if strip potential_text = [] then ls_pos st
                                 else ls_start st)\<rparr>)
      in st1\<lparr>ls_pos := ls_pos st + int (length paragraph) + 2\<rparr>)"

definition SmartChunker_chunk_document ::
  "chunker \<Rightarrow> string \<Rightarrow> string \<Rightarrow> metadata \<Rightarrow> DocumentChunk list" where
  "SmartChunker_chunk_document cfg doc_id t md =
     (if t = [] \<or> int (length (strip t)) < min_chunk_size cfg then []
      else
        let paragraphs = split_into_paragraphs t in
        if paragraphs = [] then DocumentChunker_chunk_document cfg doc_id t md
        else final_chunk cfg doc_id md t
               (foldl (paragraph_step cfg doc_id md) init_state paragraphs))"

text \<open>
  A chunk without its metadata: identifier, text, ordinal, boundaries and token count.
\<close>

definition erase :: "DocumentChunk \<Rightarrow> DocumentChunk" where
  "erase c = c\<lparr>metadata := []\<rparr>"

text \<open>Two loop states that agree on everything but the metadata of their chunks.\<close>

definition same_state :: "loop_state \<Rightarrow> loop_state \<Rightarrow> bool" where
  "same_state s1 s2 =
     (map erase (ls_chunks s1) = map erase (ls_chunks s2) \<and> ls_text s1 = ls_text s2 \<and>
      ls_start s1 = ls_start s2 \<and> ls_index s1 = ls_index s2 \<and> ls_pos s1 = ls_pos s2)"

text \<open>
  A small configuration and a document of two paragraphs, the second of which exceeds
  \<open>chunk_size\<close> on its own.
\<close>

definition small_chunker :: chunker where
  "small_chunker = \<lparr>chunk_size = 20, overlap_size = 5, min_chunk_size = 10\<rparr>"

definition two_paragraphs :: string where
  "two_paragraphs =
     ''The first paragraph is short but longer than fifty characters.'' @
     [CHR 0x0A, CHR 0x0A] @
     ''The second paragraph is long. It has several sentences inside. Every one is long enough.''"

section \<open>The Box connector (connectors/box/connector.py)\<close>

text \<open>\<open>s.lower()\<close> on code points below 256.\<close>

definition lower_char :: "char \<Rightarrow> char" where
  "lower_char c = (let n = (of_char c :: nat) in
     if (65 \<le> n \<and> n \<le> 90) \<or> (192 \<le> n \<and> n \<le> 222 \<and> n \<noteq> 215)
     then char_of (n + 32) else c)"

definition lower :: "string \<Rightarrow> string" where
  "lower s = map lower_char s"

text \<open>The dataclass \<open>FileItem\<close> of connectors/base.py.\<close>

record FileItem =
  fi_id :: string
  fi_name :: string
  fi_path :: string
  size_bytes :: "int option"
  mime_type :: "string option"
  modified_at :: "string option"
  checksum :: "string option"
  source_url :: "string option"

text \<open>
  The entries of a folder listing, as the provider returns them. A folder entry holds
  its id, its name, whether the requests for its own listing succeed
  (\<open>raise_for_status\<close> raises otherwise) and the entries of that listing; a remote
  hierarchy is a finite tree. An entry of any other type is skipped by the walk.
\<close>

record file_entry =
  fe_id :: string
  fe_name :: "string option"
  fe_size :: "int option"
  fe_sha1 :: "string option"
  fe_item_status :: "string option"

datatype entry =
    EFolder string "string option" bool "entry list"
  | EFile file_entry
  | EOther

text \<open>The keys of \<open>config\<close> that \<open>list_all_items\<close> reads.\<close>

record box_config =
  folder_ids :: "string list option"
  include_exts :: "string list option"
  max_size_mb :: "int option"

text \<open>\<open>e.get("name") or ""\<close>.\<close>

definition name_or_empty :: "string option \<Rightarrow> string" where
  "name_or_empty n = (case n of None \<Rightarrow> [] | Some s \<Rightarrow> s)"

text \<open>The set \<open>include_exts\<close>: lower case, leading dots removed.\<close>

definition norm_exts :: "box_config \<Rightarrow> string list" where
  "norm_exts cfg =
     map (\<lambda>e. dropWhile (\<lambda>c. c = CHR ''.'') (lower e))
       (case include_exts cfg of None \<Rightarrow> [] | Some es \<Rightarrow> es)"

definition max_size :: "box_config \<Rightarrow> int option" where
  "max_size cfg = (case max_size_mb cfg of None \<Rightarrow> None | Some mb \<Rightarrow> Some (mb * 1024 * 1024))"

text \<open>\<open>name.rsplit(".", 1)[-1].lower() if "." in name else ""\<close>.\<close>

definition extension :: "string \<Rightarrow> string" where
  "extension name =
     (if CHR ''.'' \<in> set name
      then lower (rev (takeWhile (\<lambda>c. c \<noteq> CHR ''.'') (rev name)))
      else [])"

text \<open>The local function \<open>allowed\<close>.\<close>

definition allowed :: "box_config \<Rightarrow> string \<Rightarrow> int option \<Rightarrow> bool" where
  "allowed cfg name sz =
     (if norm_exts cfg \<noteq> [] \<and> extension name \<notin> set (norm_exts cfg) then False
      else if (case (max_size cfg, sz) of (Some m, Some s) \<Rightarrow> s > m | _ \<Rightarrow> False) then False
      else True)"

text \<open>
  The pages that the loop of \<open>_walk_folder\<close> reads from a listing: \<open>limit\<close> entries from
  \<open>offset\<close> on, until a page is empty or shorter than \<open>limit\<close>.
\<close>

function paginate :: "nat \<Rightarrow> nat \<Rightarrow> 'a list \<Rightarrow> 'a list list" where
  "paginate limit offset xs =
     (let entries = take limit (drop offset xs) in
      if entries = [] then []
      else if length entries < limit then [entries]
      else entries # paginate limit (offset + length entries) xs)"
  by pat_completeness auto
termination
  by (relation "measure (\<lambda>(limit, offset, xs). length xs - offset)") auto

declare paginate.simps [simp del]

definition page_limit :: nat where
  "page_limit = 1000"

definition make_item :: "string \<Rightarrow> file_entry \<Rightarrow> FileItem" where
  "make_item path f =
     \<lparr>fi_id = fe_id f, fi_name = name_or_empty (fe_name f), fi_path = path,
      size_bytes = fe_size f, mime_type = None, modified_at = None,
      checksum = fe_sha1 f, source_url = None\<rparr>"

text \<open>
  \<open>_walk_folder\<close> is a generator: the result is the list of the items it yields and
  whether it ran to its end (\<open>False\<close>: a request raised, and nothing is yielded after
  it). \<open>walk_entries\<close> is the loop over the entries of the pages of one folder.
\<close>

function walk_entries :: "box_config \<Rightarrow> string \<Rightarrow> entry list \<Rightarrow> FileItem list \<times> bool" where
  "walk_entries cfg path [] = ([], True)"
| "walk_entries cfg path (EFolder fid nm ok children # es) =
     (let name = name_or_empty nm;
          sub_path = (if path \<noteq> [] then path @ ''/'' @ name else name);
          sub = (if ok then walk_entries cfg sub_path (concat (paginate page_limit 0 children))
                 else ([], False))
      in if snd sub
         then (let more = walk_entries cfg path es in (fst sub @ fst more, snd more))
         else (fst sub, False))"
| "walk_entries cfg path (EFile f # es) =
     (if fe_item_status f = Some ''trashed'' then walk_entries cfg path es
      else if \<not> allowed cfg (name_or_empty (fe_name f)) (fe_size f)
      then walk_entries cfg path es
      else (let more = walk_entries cfg path es in (make_item path f # fst more, snd more)))"
| "walk_entries cfg path (EOther # es) = walk_entries cfg path es"
  by pat_completeness auto
termination
proof (relation "measure (\<lambda>(cfg, path, es). size_list size es)")
  show "wf (measure (\<lambda>(cfg, path, es). size_list size es))" by simp
next
  have drop_eq: "concat (paginate l k xs) = drop k xs" if "0 < l" for l k and xs :: "entry list"
    using that
  proof (induction l k xs rule: paginate.induct)
    case (1 limit offset xs)
    show ?case
    proof (cases "take limit (drop offset xs) = []")
      case True
      with 1 show ?thesis by (simp add: paginate.simps [of limit offset xs] Let_def)
    next
      case False
      show ?thesis
      proof (cases "length (take limit (drop offset xs)) < limit")
        case True
        with False show ?thesis by (simp add: paginate.simps [of limit offset xs] Let_def)
      next
        case ge: False
        then have len: "length (take limit (drop offset xs)) = limit" by simp
        have "concat (paginate limit offset xs) =
              take limit (drop offset xs) @ drop (offset + limit) xs"
          using False ge 1 len by (simp add: paginate.simps [of limit offset xs] Let_def)
        also have "\<dots> = drop offset xs"
          by (metis add.commute append_take_drop_id drop_drop)
        finally show ?thesis .
      qed
    qed
  qed
  fix cfg :: box_config and path :: string and fid :: string and nm :: "string option"
    and ok :: bool and children es :: "entry list" and x xa :: string
  show "((cfg, xa, concat (paginate page_limit 0 children)), (cfg, path, EFolder fid nm ok children # es))
      \<in> measure (\<lambda>(cfg, path, es). size_list size es)"
    by (simp add: drop_eq page_limit_def)
qed auto

text \<open>\<open>_walk_folder\<close> for a folder whose listing is \<open>(ok, children)\<close>.\<close>

definition walk_folder :: "box_config \<Rightarrow> string \<Rightarrow> bool \<times> entry list \<Rightarrow> FileItem list \<times> bool" where
  "walk_folder cfg path listing =
     (case listing of (ok, children) \<Rightarrow>
        if ok then walk_entries cfg path (concat (paginate page_limit 0 children))
        else ([], False))"

text \<open>
  \<open>list_all_items\<close>: the walks of the configured folders, one after the other. The
  remote side maps the id of a configured folder to its listing.
\<close>

fun walk_roots ::
  "box_config \<Rightarrow> (string \<Rightarrow> bool \<times> entry list) \<Rightarrow> string list \<Rightarrow> FileItem list \<times> bool" where
  "walk_roots cfg remote [] = ([], True)"
| "walk_roots cfg remote (folder_id # rest) =
     (let sub = walk_folder cfg [] (remote folder_id)
      in if snd sub
         then (let more = walk_roots cfg remote rest in (fst sub @ fst more, snd more))
         else (fst sub, False))"

definition list_all_items ::
  "box_config \<Rightarrow> (string \<Rightarrow> bool \<times> entry list) \<Rightarrow> FileItem list \<times> bool" where
  "list_all_items cfg remote =
     walk_roots cfg remote
       (case folder_ids cfg of None \<Rightarrow> [''0''] | Some ids \<Rightarrow> if ids = [] then [''0''] else ids)"

text \<open>
  Every file entry of a remote tree with the path under which the walk reaches it,
  folders entered without any condition; \<open>requests_ok\<close> says that no request for a
  listing inside the tree fails.
\<close>

fun all_files :: "string \<Rightarrow> entry \<Rightarrow> (string \<times> file_entry) list" where
  "all_files path (EFolder fid nm ok children) =
     concat (map (all_files (if path \<noteq> [] then path @ ''/'' @ name_or_empty nm
                             else name_or_empty nm)) children)"
| "all_files path (EFile f) = [(path, f)]"
| "all_files path EOther = []"

fun requests_ok :: "entry \<Rightarrow> bool" where
  "requests_ok (EFolder fid nm ok children) = (ok \<and> list_all requests_ok children)"
| "requests_ok (EFile f) = True"
| "requests_ok EOther = True"

text \<open>The filtering policy: the entry is not trashed and \<open>allowed\<close> accepts it.\<close>

definition kept :: "box_config \<Rightarrow> string \<times> file_entry \<Rightarrow> bool" where
  "kept cfg pf =
     (fe_item_status (snd pf) \<noteq> Some ''trashed'' \<and>
      allowed cfg (name_or_empty (fe_name (snd pf))) (fe_size (snd pf)))"

definition root_ids :: "box_config \<Rightarrow> string list" where
  "root_ids cfg =
     (case folder_ids cfg of None \<Rightarrow> [''0''] | Some ids \<Rightarrow> if ids = [] then [''0''] else ids)"

definition root_files ::
  "box_config \<Rightarrow> (string \<Rightarrow> bool \<times> entry list) \<Rightarrow> (string \<times> file_entry) list" where
  "root_files cfg remote =
     concat (map (\<lambda>fid. concat (map (all_files []) (snd (remote fid)))) (root_ids cfg))"

definition roots_ok :: "box_config \<Rightarrow> (string \<Rightarrow> bool \<times> entry list) \<Rightarrow> bool" where
  "roots_ok cfg remote =
     list_all (\<lambda>fid. fst (remote fid) \<and> list_all requests_ok (snd (remote fid))) (root_ids cfg)"

text \<open>
  The fixture of tests/test\_box\_refresh\_and\_list.py with extensions and sizes added:
  folder 0 holds the folder 100 and three files, one of them trashed and one too large;
  folder 100 holds two files, one of them with an extension that is not allowed.
\<close>

definition fixture_config :: box_config where
  "fixture_config = \<lparr>folder_ids = Some [''0''], include_exts = Some [''.PDF''],
                      max_size_mb = Some 1\<rparr>"

definition fixture_remote :: "string \<Rightarrow> bool \<times> entry list" where
  "fixture_remote fid =
     (if fid = ''0'' then
        (True,
         [EFolder ''100'' (Some ''Sub.txt'') True
            [EFile \<lparr>fe_id = ''f2'', fe_name = Some ''File2.pdf'', fe_size = Some 20,
                    fe_sha1 = Some ''def'', fe_item_status = None\<rparr>,
             EFile \<lparr>fe_id = ''f3'', fe_name = Some ''File3.txt'', fe_size = Some 30,
                    fe_sha1 = None, fe_item_status = None\<rparr>],
          EFile \<lparr>fe_id = ''f1'', fe_name = Some ''File1.Pdf'', fe_size = Some 10,
                 fe_sha1 = Some ''abc'', fe_item_status = Some ''active''\<rparr>,
          EFile \<lparr>fe_id = ''f4'', fe_name = Some ''File4.pdf'', fe_size = Some 5,
                 fe_sha1 = None, fe_item_status = Some ''trashed''\<rparr>,
          EFile \<lparr>fe_id = ''f5'', fe_name = Some ''File5.pdf'', fe_size = Some 2000000,
                 fe_sha1 = None, fe_item_status = None\<rparr>])
      else (True, []))"

section \<open>Hybrid search (infra/document\_index/elasticsearch/advanced\_index.py)\<close>

text \<open>
  The values of \<open>filters\<close>: a list gives a \<open>terms\<close> clause, anything else a \<open>term\<close>
  clause.
\<close>

datatype filter_value = FList "string list" | FScalar string

datatype filter_clause = Terms string "string list" | Term string string

text \<open>The components of the \<open>should\<close> list and the two search bodies.\<close>

datatype query_component = KeywordComponent string | SemanticComponent "real list"

datatype search_body =
    HybridBody int "query_component list" "filter_clause list"
  | KeywordBody int string "filter_clause list"

text \<open>
  A hit of the index and the response to a search. A field of \<open>_source\<close> that may be
  missing is an option.
\<close>

record es_source =
  src_parent_doc_id :: "string option"
  src_doc_id :: "string option"
  src_text :: "string option"
  src_chunk_index :: "int option"
  src_title :: "string option"
  src_source :: "string option"
  src_link :: "string option"
  src_file_type :: "string option"
  src_indexed_at :: "string option"

record es_hit =
  hit_id :: string
  hit_score :: real
  hit_source :: es_source
  hit_highlight :: "(string \<times> string list) list option"

record es_response =
  resp_hits :: "es_hit list"
  resp_took :: int

record result_chunk =
  rc_chunk_id :: string
  rc_score :: real
  rc_text :: string
  rc_highlight :: "(string \<times> string list) list"
  rc_chunk_index :: int

record doc_result =
  dr_doc_id :: string
  dr_title :: string
  dr_score :: real
  dr_source :: string
  dr_link :: "string option"
  dr_file_type :: "string option"
  dr_indexed_at :: "string option"
  dr_chunks :: "result_chunk list"
  dr_total_chunks :: nat

text \<open>
  What a search returns: the raw form \<open>{"hits": {"hits": ...}, "took": ..., "error": ...}\<close>
  or the processed form \<open>{"query", "total", "took", "results"}\<close>.
\<close>

datatype search_result =
    Raw (raw_hits: "es_hit list") (raw_took: int) (raw_error: "string option")
  | Processed string nat int "doc_result list"

text \<open>
  The calls that leave the process: to the embedding model and to the index. The
  search functions return their result with the calls they made, in order;
  \<open>_hybrid_search_with_embeddings\<close> receives the method \<open>encode_text\<close> of the embedding
  service, which \<open>hybrid_search\<close> has found to be present.
\<close>

datatype call = EncodeText string | EsSearch search_body

text \<open>
  The index object: \<open>enable_embeddings\<close>, \<open>embedding_service\<close> with its method
  \<open>encode_text\<close>, and \<open>es.search\<close>, which answers or raises.
\<close>

record index_object =
  enable_embeddings :: bool
  embedding_service :: "(string \<Rightarrow> real list option) option"
  es_search :: "search_body \<Rightarrow> string + es_response"

record doc_group =
  dg_chunks :: "result_chunk list"
  dg_max_score :: real
  dg_doc_info :: es_source

definition or_default :: "'a \<Rightarrow> 'a option \<Rightarrow> 'a" where
  "or_default d v = (case v of None \<Rightarrow> d | Some x \<Rightarrow> x)"

text \<open>One iteration of the grouping loop of \<open>_process_search_results\<close>.\<close>

definition group_hit :: "(string \<times> doc_group) list \<Rightarrow> es_hit \<Rightarrow> (string \<times> doc_group) list" where
  "group_hit groups hit =
     (let source = hit_source hit;
          parent_id = or_default (or_default (hit_id hit) (src_doc_id source))
                        (src_parent_doc_id source);
          g0 = (case map_of groups parent_id of
                  None \<Rightarrow> \<lparr>dg_chunks = [], dg_max_score = hit_score hit, dg_doc_info = source\<rparr>
                | Some g \<Rightarrow> g);
          g1 = g0\<lparr>dg_chunks := dg_chunks g0 @
                 [\<lparr>rc_chunk_id = hit_id hit, rc_score = hit_score hit,
                   rc_text = or_default [] (src_text source),
                   rc_highlight = or_default [] (hit_highlight hit),
                   rc_chunk_index = or_default 0 (src_chunk_index source)\<rparr>]\<rparr>;
          g2 = (if hit_score hit > dg_max_score g1 then g1\<lparr>dg_max_score := hit_score hit\<rparr>
                else g1)
      in AList.update parent_id g2 groups)"

text \<open>\<open>sorted(xs, key=k, reverse=True)\<close>: stable, largest key first.\<close>

definition sorted_reverse :: "('a \<Rightarrow> real) \<Rightarrow> 'a list \<Rightarrow> 'a list" where
  "sorted_reverse k xs = sort_key (\<lambda>x. - k x) xs"

definition format_result :: "string \<times> doc_group \<Rightarrow> doc_result" where
  "format_result item =
     (case item of (doc_id, doc_data) \<Rightarrow>
        let chunks = sorted_reverse rc_score (dg_chunks doc_data) in
        \<lparr>dr_doc_id = doc_id,
         dr_title = or_default [] (src_title (dg_doc_info doc_data)),
         dr_score = dg_max_score doc_data,
         dr_source = or_default [] (src_source (dg_doc_info doc_data)),
         dr_link = src_link (dg_doc_info doc_data),
         dr_file_type = src_file_type (dg_doc_info doc_data),
         dr_indexed_at = src_indexed_at (dg_doc_info doc_data),
         dr_chunks = take 3 chunks,
         dr_total_chunks = length chunks\<rparr>)"

definition process_search_results :: "es_response \<Rightarrow> string \<Rightarrow> search_result" where
  "process_search_results response query =
     (let doc_groups = foldl group_hit [] (resp_hits response);
          sorted_docs = sorted_reverse (\<lambda>x. dg_max_score (snd x)) doc_groups;
          formatted_results = map format_result sorted_docs
      in Processed query (length formatted_results) (resp_took response) formatted_results)"

definition keyword_only_search ::
  "index_object \<Rightarrow> string \<Rightarrow> int \<Rightarrow> filter_clause list \<Rightarrow> search_result \<times> call list" where
  "keyword_only_search self query size_n filter_clauses =
     (let search_body = KeywordBody size_n query filter_clauses in
      case es_search self search_body of
        Inr response \<Rightarrow> (process_search_results response query, [EsSearch search_body])
      | Inl e \<Rightarrow> (Raw [] 0 (Some e), [EsSearch search_body]))"

definition hybrid_search_with_embeddings ::
  "index_object \<Rightarrow> (string \<Rightarrow> real list option) \<Rightarrow> string \<Rightarrow> int \<Rightarrow> real \<Rightarrow> real \<Rightarrow>
     filter_clause list \<Rightarrow> search_result \<times> call list" where
  "hybrid_search_with_embeddings self encode_text query size_n semantic_weight keyword_weight
       filter_clauses =
         (let query_embedding = encode_text query in
          if query_embedding = None \<or> query_embedding = Some [] then
            (let r = keyword_only_search self query size_n filter_clauses
             in (fst r, EncodeText query # snd r))
          else
            let queries =
                  (if keyword_weight > 0 then [KeywordComponent query] else []) @
                  (if semantic_weight > 0
                   then [SemanticComponent (or_default [] query_embedding)] else []);
                search_body = HybridBody size_n queries filter_clauses
            in case es_search self search_body of
                 Inr response \<Rightarrow>
                   (process_search_results response query,
                    [EncodeText query, EsSearch search_body])
               | Inl e \<Rightarrow> (Raw [] 0 (Some e), [EncodeText query, EsSearch search_body]))"

definition filter_clauses_of :: "(string \<times> filter_value) list option \<Rightarrow> filter_clause list" where
  "filter_clauses_of filters =
     (case filters of
        None \<Rightarrow> []
      | Some fs \<Rightarrow>
          map (\<lambda>(field, v). case v of FList vs \<Rightarrow> Terms field vs | FScalar x \<Rightarrow> Term field x) fs)"

definition hybrid_search ::
  "index_object \<Rightarrow> string \<Rightarrow> int \<Rightarrow> real \<Rightarrow> real \<Rightarrow> (string \<times> filter_value) list option \<Rightarrow>
     search_result \<times> call list" where
  "hybrid_search self query size_n semantic_weight keyword_weight filters =
     (if strip query = [] then (Raw [] 0 None, [])
      else
        let filter_clauses = filter_clauses_of filters in
        case (enable_embeddings self, embedding_service self) of
          (True, Some encode_text) \<Rightarrow>
            hybrid_search_with_embeddings self encode_text query size_n semantic_weight
              keyword_weight filter_clauses
        | _ \<Rightarrow> keyword_only_search self query size_n filter_clauses)"

text \<open>An index object whose embedding model and index answer every call.\<close>

definition answering_index :: index_object where
  "answering_index =
     \<lparr>enable_embeddings = True,
      embedding_service = Some (\<lambda>q. Some [1]),
      es_search = (\<lambda>b. Inr \<lparr>resp_hits = [], resp_took = 3\<rparr>)\<rparr>"

section \<open>Token resolution (workers/celery\_worker\_functional.py)\<close>

text \<open>
  A \<open>datetime\<close>: its calendar fields read as a UTC instant in microseconds, and
  its offset from UTC when it is aware of a time zone.
\<close>

record datetime =
  dt_fields :: int
  dt_offset :: "int option"

definition instant :: "datetime \<Rightarrow> int" where
  "instant d = dt_fields d - (case dt_offset d of None \<Rightarrow> 0 | Some off \<Rightarrow> off)"

text \<open>
  The value stored under \<open>expires_at\<close> in the credential JSON: missing or null, a
  string, or a value of another JSON type.
\<close>

datatype json_exp = JNull | JStr string | JOther

text \<open>The keys of the credential dictionary that the token step reads and writes.\<close>

record creds =
  access_token :: "string option"
  box_access_token :: "string option"
  refresh_token :: "string option"
  box_refresh_token :: "string option"
  expires_at :: json_exp
  client_id :: "string option"
  client_secret :: "string option"

text \<open>What \<open>connector.refresh_tokens\<close> returns.\<close>

datatype tok_exp = TokNone | TokDatetime datetime | TokStr string

record toks =
  tk_access_token :: "string option"
  tk_refresh_token :: "string option"
  tk_expires_at :: tok_exp

text \<open>
  What the step takes from outside: the clock, the ISO 8601 parser and printer of
  \<open>datetime\<close> (the parser raises on a string it rejects: \<open>None\<close>), the environment
  variables \<open>BOX_CLIENT_ID\<close> and \<open>BOX_CLIENT_SECRET\<close>, the refresh-token exchange of the
  connector (which returns tokens or raises), and whether the \<open>UPDATE\<close> of the credential
  row goes through or raises.
\<close>

record token_env =
  now :: int
  fromisoformat :: "string \<Rightarrow> datetime option"
  isoformat :: "datetime \<Rightarrow> string"
  env_client_id :: "string option"
  env_client_secret :: "string option"
  refresh_tokens :: "string option \<Rightarrow> string option \<Rightarrow> string \<Rightarrow> string + toks"
  db_write_ok :: bool

text \<open>
  The exceptions that leave the step: \<open>AttributeError\<close> and \<open>OverflowError\<close> from the
  computation of \<open>need_refresh\<close>, which no \<open>try\<close> encloses, and the \<open>RuntimeError\<close>
  for a missing access token.
\<close>

datatype token_error = AttributeError | OverflowError | NoAccessToken

text \<open>Truth of a value that is \<open>None\<close> or a string, and Python's \<open>a or b\<close> on such values.\<close>

definition truthy :: "string option \<Rightarrow> bool" where
  "truthy v = (case v of None \<Rightarrow> False | Some s \<Rightarrow> s \<noteq> [])"

definition py_or :: "string option \<Rightarrow> string option \<Rightarrow> string option" where
  "py_or a b = (if truthy a then a else b)"

text \<open>\<open>val.replace("Z", "+00:00")\<close> when \<open>val.endswith("Z")\<close>.\<close>

definition replace_Z :: "string \<Rightarrow> string" where
  "replace_Z s =
     (if s \<noteq> [] \<and> last s = CHR ''Z''
      then concat (map (\<lambda>c. if c = CHR ''Z'' then ''+00:00'' else [c]) s)
      else s)"

text \<open>
  \<open>_parse_expires_at\<close>: \<open>None\<close>, a \<open>datetime\<close>, or the value itself when it is neither
  null nor a string.
\<close>

datatype parsed_exp = PNone | PDatetime datetime | PValue

definition parse_expires_at :: "token_env \<Rightarrow> json_exp \<Rightarrow> parsed_exp" where
  "parse_expires_at env val =
     (case val of
        JNull \<Rightarrow> PNone
      | JStr s \<Rightarrow> (case fromisoformat env (replace_Z s) of
                     None \<Rightarrow> PNone
                   | Some d \<Rightarrow> PDatetime d)
      | JOther \<Rightarrow> PValue)"

definition refresh_margin :: int where
  "refresh_margin = 5 * 60 * 1000000"

text \<open>
  \<open>datetime.min\<close>, the first instant of the year 1, in microseconds from the first
  instant of 1970: 719162 days earlier.
\<close>

definition datetime_min :: int where
  "datetime_min = - (719162 * 86400 * 1000000)"

text \<open>
  \<open>need_refresh\<close>, after a naive \<open>datetime\<close> has been given the zone UTC. A value
  without the method \<open>replace\<close> raises there. \<open>exp - timedelta(minutes=5)\<close> subtracts
  from the calendar fields and raises when the result is before \<open>datetime.min\<close>; the
  comparison with the clock is that of the instants.
\<close>

definition need_refresh :: "token_env \<Rightarrow> json_exp \<Rightarrow> token_error + bool" where
  "need_refresh env val =
     (case parse_expires_at env val of
        PNone \<Rightarrow> Inr True
      | PValue \<Rightarrow> Inl AttributeError
      | PDatetime d \<Rightarrow>
          let exp = (if dt_offset d = None then d\<lparr>dt_offset := Some 0\<rparr> else d)
          in if dt_fields exp - refresh_margin < datetime_min then Inl OverflowError
             else Inr (now env \<ge> instant (exp\<lparr>dt_fields := dt_fields exp - refresh_margin\<rparr>)))"

text \<open>The credential table: \<open>credential_json\<close> by row id.\<close>

type_synonym credential_store = "nat \<Rightarrow> creds option"

definition update_credential :: "credential_store \<Rightarrow> nat \<Rightarrow> creds \<Rightarrow> credential_store" where
  "update_credential store cid c = (if store cid = None then store else store(cid \<mapsto> c))"

definition stored_exp :: "token_env \<Rightarrow> tok_exp \<Rightarrow> json_exp" where
  "stored_exp env e =
     (case e of TokNone \<Rightarrow> JNull | TokDatetime d \<Rightarrow> JStr (isoformat env d) | TokStr s \<Rightarrow> JStr s)"

text \<open>
  The outcome of the step: the token or the exception, the credential dictionary as the
  step leaves it, the credential table, and the number of refresh-token exchanges made.
\<close>

record token_outcome =
  result :: "token_error + string"
  creds_after :: creds
  store_after :: credential_store
  exchanges :: nat

definition finish_token :: "string option \<Rightarrow> token_error + string" where
  "finish_token access = (case access of
       None \<Rightarrow> Inl NoAccessToken
     | Some a \<Rightarrow> if a = [] then Inl NoAccessToken else Inr a)"

definition get_valid_access_token ::
  "token_env \<Rightarrow> credential_store \<Rightarrow> nat \<Rightarrow> creds \<Rightarrow> token_outcome" where
  "get_valid_access_token env store credential_id c =
     (let access = py_or (access_token c) (box_access_token c);
          refresh = py_or (refresh_token c) (box_refresh_token c)
      in case need_refresh env (expires_at c) of
           Inl e \<Rightarrow> \<lparr>result = Inl e, creds_after = c, store_after = store, exchanges = 0\<rparr>
         | Inr need \<Rightarrow>
             if need \<and> truthy refresh then
               let cl_id = py_or (client_id c) (env_client_id env);
                   cl_secret = py_or (client_secret c) (env_client_secret env)
               in case refresh_tokens env cl_id cl_secret (case refresh of None \<Rightarrow> [] | Some r \<Rightarrow> r) of
                    Inl err \<Rightarrow>
                      \<lparr>result = finish_token access, creds_after = c, store_after = store,
                       exchanges = 1\<rparr>
                  | Inr t \<Rightarrow>
                      let access1 = py_or (tk_access_token t) access;
                          new_refresh = py_or (tk_refresh_token t) refresh;
                          c1 = c\<lparr>access_token := access1,
                                 refresh_token := new_refresh,
                                 expires_at := stored_exp env (tk_expires_at t),
                                 client_id := cl_id,
                                 client_secret := cl_secret\<rparr>
                      in \<lparr>result = finish_token access1, creds_after = c1,
                          store_after = (if db_write_ok env
                                         then update_credential store credential_id c1
                                         else store),
                          exchanges = 1\<rparr>
             else \<lparr>result = finish_token access, creds_after = c, store_after = store,
                   exchanges = 0\<rparr>)"


text \<open>
  The exception that the stored expiry makes the step raise, if any: a value that is
  neither null nor a string, or a string that parses to a date less than five minutes
  after \<open>datetime.min\<close>.
\<close>

definition expiry_error :: "token_env \<Rightarrow> json_exp \<Rightarrow> token_error option" where
  "expiry_error env val =
     (case val of
        JNull \<Rightarrow> None
      | JStr s \<Rightarrow> (case fromisoformat env (replace_Z s) of
                     None \<Rightarrow> None
                   | Some d \<Rightarrow> if dt_fields d < datetime_min + 5 * 60 * 1000000
                               then Some OverflowError else None)
      | JOther \<Rightarrow> Some AttributeError)"

text \<open>
  The refresh condition in the words of the specification: the expiry is unknown (no
  value, or a string that does not parse), or the clock has reached the expiry less five
  minutes.
\<close>

definition refresh_due :: "token_env \<Rightarrow> json_exp \<Rightarrow> bool" where
  "refresh_due env val =
     (case val of
        JNull \<Rightarrow> True
      | JStr s \<Rightarrow> (case fromisoformat env (replace_Z s) of
                     None \<Rightarrow> True
                   | Some d \<Rightarrow> now env \<ge> instant d - 5 * 60 * 1000000)
      | JOther \<Rightarrow> True)"

text \<open>
  A clock at 1000 seconds, a parser that knows one date (the instant 0) and a provider
  that rejects every exchange; and one that answers with a new access token and no
  refresh token.
\<close>

definition failing_provider :: token_env where
  "failing_provider =
     \<lparr>now = 1000000000,
      fromisoformat = (\<lambda>s. if s = ''1970-01-01T00:00:00''
                            then Some \<lparr>dt_fields = 0, dt_offset = None\<rparr> else None),
      isoformat = (\<lambda>d. ''1970-01-01T02:00:00+00:00''),
      env_client_id = Some ''id'',
      env_client_secret = Some ''secret'',
      refresh_tokens = (\<lambda>i s r. Inl ''400 Bad Request''),
      db_write_ok = True\<rparr>"

definition answering_provider :: token_env where
  "answering_provider =
     failing_provider\<lparr>refresh_tokens :=
        (\<lambda>i s r. Inr \<lparr>tk_access_token = Some ''AT2'', tk_refresh_token = None,
                        tk_expires_at = TokDatetime \<lparr>dt_fields = 7200000000,
                                                     dt_offset = Some 0\<rparr>\<rparr>)\<rparr>"

text \<open>An expired credential without a refresh token, and one with a refresh token.\<close>

definition expired_no_refresh :: creds where
  "expired_no_refresh =
     \<lparr>access_token = Some ''AT'', box_access_token = None, refresh_token = None,
      box_refresh_token = None, expires_at = JStr ''1970-01-01T00:00:00'',
      client_id = None, client_secret = None\<rparr>"

definition expired_with_refresh :: creds where
  "expired_with_refresh = expired_no_refresh\<lparr>refresh_token := Some ''RT''\<rparr>"

text \<open>
  A provider that answers while the \<open>UPDATE\<close> of the credential row raises; a credential
  whose expiry is a JSON number; and a credential that expires at the first instant of
  the year 1, with a parser that knows that date.
\<close>

definition answering_provider_db_down :: token_env where
  "answering_provider_db_down = answering_provider\<lparr>db_write_ok := False\<rparr>"

definition numeric_expiry :: creds where
  "numeric_expiry = expired_with_refresh\<lparr>expires_at := JOther\<rparr>"

definition earliest_expiry :: creds where
  "earliest_expiry = expired_with_refresh\<lparr>expires_at := JStr ''0001-01-01T00:00:00''\<rparr>"

definition year_one_parser :: token_env where
  "year_one_parser =
     answering_provider\<lparr>fromisoformat :=
        (\<lambda>s. if s = ''0001-01-01T00:00:00''
             then Some \<lparr>dt_fields = datetime_min, dt_offset = None\<rparr> else None)\<rparr>"

section \<open>The tables, the index and the local copies\<close>

text \<open>
  The rows that the sync and prune tasks read and write. \<open>document\<close> has the primary
  key \<open>id\<close>; \<open>document_by_connector_credential_pair\<close> links a document id to a
  connector-credential pair (a sync scope).
\<close>

record document_row =
  d_id :: string
  d_semantic_id :: string
  d_doc_updated_at :: "string option"
  d_chunk_count :: int

record cc_pair_row =
  cp_credential_id :: nat
  cp_last_successful_index_time :: "int option"
  cp_last_attempt_status :: "string option"
  cp_total_docs_indexed :: "int option"

record attempt_row =
  at_status :: string
  at_new_docs_indexed :: int
  at_error_msg :: "string option"

record database =
  db_credential :: credential_store
  db_cc_pair :: "nat \<Rightarrow> cc_pair_row option"
  db_document :: "document_row list"
  db_links :: "(string \<times> nat) list"
  db_attempt :: "nat \<Rightarrow> attempt_row option"

text \<open>\<open>f"box:{item.id}"\<close> and the SQL test \<open>id LIKE 'box:%'\<close>.\<close>

definition box_doc_id :: "string \<Rightarrow> string" where
  "box_doc_id fid = ''box:'' @ fid"

definition like_box :: "string \<Rightarrow> bool" where
  "like_box i = (take 4 i = ''box:'')"

subsection \<open>The listing pass of \<open>connector_doc_fetching_task\<close>\<close>

text \<open>
  The loop \<open>for item in items\<close>: the counter \<open>documents_processed\<close>, the tables, and
  the tasks handed to \<open>docprocessing_task.delay\<close> (batch id and document ids).
\<close>

record listing_state =
  documents_processed :: int
  lp_db :: database
  lp_queue :: "(string \<times> string list) list"

definition process_item :: "nat \<Rightarrow> nat \<Rightarrow> listing_state \<Rightarrow> FileItem \<Rightarrow> listing_state" where
  "process_item cc_pair_id attempt_id st item =
     (let n = documents_processed st + 1;
          doc_id = box_doc_id (fi_id item);
          db = lp_db st;
          db1 = (if doc_id \<in> set (map d_id (db_document db)) then db
                 else db\<lparr>db_document := db_document db @
                        [\<lparr>d_id = doc_id,
                          d_semantic_id = (if fi_name item \<noteq> [] then fi_name item else doc_id),
                          d_doc_updated_at = modified_at item,
                          d_chunk_count = 1\<rparr>]\<rparr>);
          db2 = (if (doc_id, cc_pair_id) \<in> set (db_links db1) then db1
                 else db1\<lparr>db_links := db_links db1 @ [(doc_id, cc_pair_id)]\<rparr>)
      in \<lparr>documents_processed = n, lp_db = db2,
          lp_queue = lp_queue st @
            [(''doc_'' @ str_int (int attempt_id) @ ''_'' @ str_int n, [doc_id])]\<rparr>)"

text \<open>The two \<open>UPDATE\<close> statements after the loop; \<open>t\<close> is \<open>NOW()\<close>.\<close>

definition mark_success :: "nat \<Rightarrow> nat \<Rightarrow> int \<Rightarrow> int \<Rightarrow> database \<Rightarrow> database" where
  "mark_success cc_pair_id attempt_id t docs_processed db =
     db\<lparr>db_attempt :=
          (case db_attempt db attempt_id of
             None \<Rightarrow> db_attempt db
           | Some a \<Rightarrow> (db_attempt db)(attempt_id \<mapsto>
               a\<lparr>at_status := ''SUCCESS'', at_new_docs_indexed := docs_processed\<rparr>)),
        db_cc_pair :=
          (case db_cc_pair db cc_pair_id of
             None \<Rightarrow> db_cc_pair db
           | Some p \<Rightarrow> (db_cc_pair db)(cc_pair_id \<mapsto>
               p\<lparr>cp_last_successful_index_time := Some t,
                  cp_last_attempt_status := Some ''SUCCESS'',
                  cp_total_docs_indexed :=
                    Some ((case cp_total_docs_indexed p of None \<Rightarrow> 0 | Some n \<Rightarrow> n)
                          + docs_processed)\<rparr>))\<rparr>"

definition listing_pass ::
  "nat \<Rightarrow> nat \<Rightarrow> int \<Rightarrow> database \<Rightarrow> FileItem list \<Rightarrow> listing_state" where
  "listing_pass cc_pair_id attempt_id t db items =
     (let st = foldl (process_item cc_pair_id attempt_id)
                 \<lparr>documents_processed = 0, lp_db = db, lp_queue = []\<rparr> items
      in st\<lparr>lp_db := mark_success cc_pair_id attempt_id t (documents_processed st) (lp_db st)\<rparr>)"

text \<open>
  The documents among the listed items that the table \<open>document\<close> did not hold before
  the pass.
\<close>

definition new_documents :: "database \<Rightarrow> FileItem list \<Rightarrow> string list" where
  "new_documents db items =
     remdups (filter (\<lambda>i. i \<notin> set (map d_id (db_document db)))
                (map (\<lambda>item. box_doc_id (fi_id item)) items))"

text \<open>One scope, one run, and a document that the store already holds.\<close>

definition known_item :: FileItem where
  "known_item = \<lparr>fi_id = ''f1'', fi_name = ''File1'', fi_path = [], size_bytes = Some 10,
                 mime_type = None, modified_at = None, checksum = Some ''abc'',
                 source_url = None\<rparr>"

definition synced_db :: database where
  "synced_db =
     \<lparr>db_credential = Map.empty,
      db_cc_pair = [1 \<mapsto> \<lparr>cp_credential_id = 1, cp_last_successful_index_time = None,
                           cp_last_attempt_status = None, cp_total_docs_indexed = Some 1\<rparr>],
      db_document = [\<lparr>d_id = ''box:f1'', d_semantic_id = ''File1'', d_doc_updated_at = None,
                      d_chunk_count = 1\<rparr>],
      db_links = [(''box:f1'', 1)],
      db_attempt = [7 \<mapsto> \<lparr>at_status = ''IN_PROGRESS'', at_new_docs_indexed = 0,
                           at_error_msg = None\<rparr>]\<rparr>"

subsection \<open>The search index and the local copies\<close>

text \<open>
  A record of the search index: its \<open>_id\<close> and the fields that deletion matches.
  \<open>ix_advanced\<close> is the advanced index when \<open>get_advanced_index()\<close> finds one,
  \<open>ix_basic\<close> the basic index, \<open>ix_up\<close> whether the index service answers.
\<close>

record es_record =
  er_id :: string
  er_doc_id :: "string option"
  er_parent_doc_id :: "string option"
  er_chunk_id :: "string option"

record index_state =
  ix_advanced :: "es_record list option"
  ix_basic :: "es_record list"
  ix_up :: bool

text \<open>The query of \<open>AdvancedElasticsearchIndex.delete_document\<close>.\<close>

definition matches_doc :: "string \<Rightarrow> es_record \<Rightarrow> bool" where
  "matches_doc doc_id r =
     (er_doc_id r = Some doc_id \<or> er_parent_doc_id r = Some doc_id \<or> er_chunk_id r = Some doc_id)"

text \<open>
  \<open>delete_document\<close> of index.py: by query on the advanced index if there is one, by id
  on the basic index otherwise. A failure is caught and reported in the returned
  status; the function does not raise.
\<close>

definition delete_document :: "index_state \<Rightarrow> string \<Rightarrow> index_state" where
  "delete_document ix doc_id =
     (case ix_advanced ix of
        Some recs \<Rightarrow>
          if ix_up ix then ix\<lparr>ix_advanced := Some (filter (\<lambda>r. \<not> matches_doc doc_id r) recs)\<rparr>
          else ix
      | None \<Rightarrow>
          if ix_up ix then ix\<lparr>ix_basic := filter (\<lambda>r. er_id r \<noteq> doc_id) (ix_basic ix)\<rparr>
          else ix)"

text \<open>
  The directories \<open>documents/box\<close> and \<open>documents/metadata\<close> of \<open>LocalStorage\<close>, by file
  name, and what can go wrong with them: \<open>ls_mkdir_ok\<close>, whether the constructor can make
  the directories and the database engine; \<open>ls_query_ok\<close>, whether the query of
  \<open>get_indexed_documents\<close> answers; \<open>ls_locked\<close> and \<open>ls_meta_locked\<close>, the files of the two
  directories whose \<open>unlink\<close> raises.
\<close>

record local_storage =
  ls_files :: "string list"
  ls_meta :: "string list"
  ls_mkdir_ok :: bool
  ls_query_ok :: bool
  ls_locked :: "string list"
  ls_meta_locked :: "string list"

datatype storage_error = StorageError

text \<open>The constructor \<open>LocalStorage(access_token=access)\<close>.\<close>

definition LocalStorage :: "local_storage \<Rightarrow> storage_error + local_storage" where
  "LocalStorage ls = (if ls_mkdir_ok ls then Inr ls else Inl StorageError)"

text \<open>\<open>row[0].replace('box:', '')\<close>.\<close>

fun remove_box :: "string \<Rightarrow> string" where
  "remove_box (a # b # c # d # rest) =
     (if [a, b, c, d] = ''box:'' then remove_box rest else a # remove_box (b # c # d # rest))"
| "remove_box s = s"

definition indexed_ids :: "database \<Rightarrow> string list" where
  "indexed_ids db = map (\<lambda>r. remove_box (d_id r)) (filter (\<lambda>r. like_box (d_id r)) (db_document db))"

text \<open>\<open>get_indexed_documents\<close>, as the \<open>box_file_id\<close> of every row, or the exception of the query.\<close>

definition get_indexed_documents :: "database \<Rightarrow> local_storage \<Rightarrow> storage_error + string list" where
  "get_indexed_documents db ls = (if ls_query_ok ls then Inr (indexed_ids db) else Inl StorageError)"

text \<open>\<open>file.name.split('_', 1)[0]\<close> for a name that holds an underscore.\<close>

definition file_box_id :: "string \<Rightarrow> string" where
  "file_box_id name = takeWhile (\<lambda>c. c \<noteq> CHR ''_'') name"

definition is_orphan :: "database \<Rightarrow> string \<Rightarrow> bool" where
  "is_orphan db name = (CHR ''_'' \<in> set name \<and> file_box_id name \<notin> set (indexed_ids db))"

text \<open>The name of \<open>metadata_dir / f"{box_id}_sync.json"\<close>.\<close>

definition sync_json :: "string \<Rightarrow> string" where
  "sync_json box_id = box_id @ ''_sync.json''"

text \<open>
  One iteration of the loop of \<open>cleanup_orphaned_files\<close> over the files matching \<open>*_*\<close>. A
  name that is no longer a file, or whose id is that of a document of the table, is
  passed over. Otherwise the file is unlinked, then its metadata file if there is one,
  and the file is counted; an exception of either \<open>unlink\<close> is caught and ends the
  iteration without counting the file, so that a file whose metadata file cannot be
  unlinked is removed and not counted.
\<close>

definition cleanup_step ::
  "string list \<Rightarrow> local_storage \<times> int \<Rightarrow> string \<Rightarrow> local_storage \<times> int" where
  "cleanup_step indexed acc name =
     (case acc of (ls, orphaned) \<Rightarrow>
        if name \<notin> set (ls_files ls) then (ls, orphaned)
        else if file_box_id name \<in> set indexed then (ls, orphaned)
        else if name \<in> set (ls_locked ls) then (ls, orphaned)
        else
          let ls1 = ls\<lparr>ls_files := filter (\<lambda>n. n \<noteq> name) (ls_files ls)\<rparr>;
              meta = sync_json (file_box_id name)
          in if meta \<in> set (ls_meta ls1)
             then if meta \<in> set (ls_meta_locked ls1) then (ls1, orphaned)
                  else (ls1\<lparr>ls_meta := filter (\<lambda>m. m \<noteq> meta) (ls_meta ls1)\<rparr>, orphaned + 1)
             else (ls1, orphaned + 1))"

text \<open>
  \<open>cleanup_orphaned_files\<close>: the exception of \<open>get_indexed_documents\<close>, or the storage
  after the loop and the number of files counted. The files are visited in the order
  of the directory listing.
\<close>

definition cleanup_orphaned_files ::
  "database \<Rightarrow> local_storage \<Rightarrow> storage_error + local_storage \<times> int" where
  "cleanup_orphaned_files db ls =
     (case get_indexed_documents db ls of
        Inl e \<Rightarrow> Inl e
      | Inr indexed \<Rightarrow>
          Inr (foldl (cleanup_step indexed) (ls, 0)
                 (filter (\<lambda>name. CHR ''_'' \<in> set name) (ls_files ls))))"

record world =
  w_db :: database
  w_index :: index_state
  w_local :: local_storage

subsection \<open>\<open>_prune_deleted_documents\<close>\<close>

record prune_result =
  removed_from_db :: int
  removed_local_files :: int
  removed_from_es :: int

text \<open>
  The rows of the join of \<open>document\<close> with the links of the scope, restricted to ids
  \<open>LIKE 'box:%'\<close>, as the set \<open>db_ids\<close>.
\<close>

definition db_ids :: "database \<Rightarrow> nat \<Rightarrow> string list" where
  "db_ids db cc_pair_id =
     remdups (map d_id (filter (\<lambda>r. (d_id r, cc_pair_id) \<in> set (db_links db) \<and> like_box (d_id r))
                          (db_document db)))"

text \<open>
  \<open>to_remove = db_ids - prefixed_box_ids\<close>. Python iterates a set in no specified
  order; here the order is that of the rows.
\<close>

definition to_remove :: "database \<Rightarrow> nat \<Rightarrow> FileItem list \<Rightarrow> string list" where
  "to_remove db cc_pair_id items =
     filter (\<lambda>d. d \<notin> set (map (\<lambda>i. box_doc_id (fi_id i)) items)) (db_ids db cc_pair_id)"

text \<open>One iteration of \<open>for doc_id in to_remove\<close> inside the transaction.\<close>

definition prune_step :: "nat \<Rightarrow> database \<times> int \<Rightarrow> string \<Rightarrow> database \<times> int" where
  "prune_step cc_pair_id acc doc_id =
     (case acc of (db, removed) \<Rightarrow>
        let links1 = filter (\<lambda>l. \<not> (fst l = doc_id \<and> snd l = cc_pair_id)) (db_links db);
            other_count = length (filter (\<lambda>l. fst l = doc_id) links1)
        in if other_count = 0
           then (db\<lparr>db_links := links1,
                    db_document := filter (\<lambda>r. d_id r \<noteq> doc_id) (db_document db)\<rparr>,
                 removed + 1)
           else (db\<lparr>db_links := links1\<rparr>, removed))"

text \<open>The loop \<open>for doc_id in to_remove: delete_document(doc_id)\<close>.\<close>

definition es_step :: "index_state \<times> int \<Rightarrow> string \<Rightarrow> index_state \<times> int" where
  "es_step acc doc_id = (case acc of (ix, removed) \<Rightarrow> (delete_document ix doc_id, removed + 1))"

text \<open>
  The block \<open>try: storage = LocalStorage(...); removed_local_files =
  storage.cleanup_orphaned_files() except Exception\<close>: an exception of the constructor or
  of the method is caught and logged, and \<open>removed_local_files\<close> keeps the value 0.
\<close>

definition clean_up_local_files :: "database \<Rightarrow> local_storage \<Rightarrow> local_storage \<times> int" where
  "clean_up_local_files db ls =
     (case LocalStorage ls of
        Inl e \<Rightarrow> (ls, 0)
      | Inr storage \<Rightarrow>
          (case cleanup_orphaned_files db storage of
             Inl e \<Rightarrow> (ls, 0)
           | Inr res \<Rightarrow> res))"

text \<open>The part of the task that follows the listing.\<close>

definition prune_listed :: "world \<Rightarrow> nat \<Rightarrow> FileItem list \<Rightarrow> prune_result \<times> world" where
  "prune_listed w cc_pair_id items =
     (let ids = to_remove (w_db w) cc_pair_id items;
          (db1, n_db) = foldl (prune_step cc_pair_id) (w_db w, 0) ids;
          (local1, n_local) = clean_up_local_files db1 (w_local w);
          (ix1, n_es) = foldl es_step (w_index w, 0) ids
      in (\<lparr>removed_from_db = n_db, removed_local_files = n_local, removed_from_es = n_es\<rparr>,
          \<lparr>w_db = db1, w_index = ix1, w_local = local1\<rparr>))"

datatype prune_error = NoCredentials | TokenError token_error | RemoteError

text \<open>The configuration that the task passes to \<open>list_all_items\<close>.\<close>

definition prune_config :: box_config where
  "prune_config = \<lparr>folder_ids = Some [''0''], include_exts = None, max_size_mb = None\<rparr>"

text \<open>
  The task: it reads the credential of the scope, resolves a token with the steps of
  \<open>_get_valid_access_token\<close> (repeated inline in the source), lists the remote files and
  prunes. An exception leaves the tables as they are at that point. The statements on
  the tables \<open>document\<close> and \<open>document_by_connector_credential_pair\<close> are taken to go
  through: an exception there would leave the task, with the transaction rolled back,
  before any local copy or index entry is touched.
\<close>

definition prune_deleted_documents ::
  "token_env \<Rightarrow> (string \<Rightarrow> bool \<times> entry list) \<Rightarrow> world \<Rightarrow> nat \<Rightarrow>
     (prune_error + prune_result) \<times> world" where
  "prune_deleted_documents env remote w cc_pair_id =
     (case db_cc_pair (w_db w) cc_pair_id of
        None \<Rightarrow> (Inl NoCredentials, w)
      | Some p \<Rightarrow>
          (case db_credential (w_db w) (cp_credential_id p) of
             None \<Rightarrow> (Inl NoCredentials, w)
           | Some c \<Rightarrow>
               let out = get_valid_access_token env (db_credential (w_db w)) (cp_credential_id p) c;
                   w1 = w\<lparr>w_db := (w_db w)\<lparr>db_credential := store_after out\<rparr>\<rparr>
               in case result out of
                    Inl e \<Rightarrow> (Inl (TokenError e), w1)
                  | Inr access \<Rightarrow>
                      let listing = list_all_items prune_config remote
                      in if snd listing
                         then (case prune_listed w1 cc_pair_id (fst listing) of
                                 (r, w2) \<Rightarrow> (Inr r, w2))
                         else (Inl RemoteError, w1)))"



text \<open>The records of the index in use that deletion of \<open>doc_id\<close> addresses.\<close>

definition index_entries :: "index_state \<Rightarrow> string \<Rightarrow> es_record list" where
  "index_entries ix doc_id =
     (case ix_advanced ix of
        Some recs \<Rightarrow> filter (matches_doc doc_id) recs
      | None \<Rightarrow> filter (\<lambda>r. er_id r = doc_id) (ix_basic ix))"


text \<open>
  The scenario of tests/test\_prune\_logic.py, with an index and local copies: the scope 1
  tracks \<open>box:keep1\<close> and \<open>box:gone1\<close>, and the remote root holds \<open>keep1\<close> only.
\<close>

definition plain_document :: "string \<Rightarrow> document_row" where
  "plain_document i = \<lparr>d_id = i, d_semantic_id = i, d_doc_updated_at = None, d_chunk_count = 1\<rparr>"

definition plain_file :: "string \<Rightarrow> entry" where
  "plain_file i = EFile \<lparr>fe_id = i, fe_name = Some i, fe_size = Some 10, fe_sha1 = None,
                        fe_item_status = None\<rparr>"

definition test_db :: "document_row list \<Rightarrow> (string \<times> nat) list \<Rightarrow> database" where
  "test_db docs links =
     \<lparr>db_credential = [1 \<mapsto> expired_no_refresh],
      db_cc_pair = [1 \<mapsto> \<lparr>cp_credential_id = 1, cp_last_successful_index_time = None,
                           cp_last_attempt_status = None, cp_total_docs_indexed = None\<rparr>],
      db_document = docs, db_links = links, db_attempt = Map.empty\<rparr>"


definition test_remote :: "string \<Rightarrow> bool \<times> entry list" where
  "test_remote fid = (if fid = ''0'' then (True, [plain_file ''keep1'']) else (True, []))"




text \<open>A document that two scopes track, gone from the remote listing.\<close>

definition shared_world :: world where
  "shared_world =
     \<lparr>w_db = test_db [plain_document ''box:x''] [(''box:x'', 1), (''box:x'', 2)],
      w_index = \<lparr>ix_advanced =
                   Some [\<lparr>er_id = ''box:x'', er_doc_id = Some ''box:x'',
                          er_parent_doc_id = None, er_chunk_id = None\<rparr>],
                 ix_basic = [], ix_up = True\<rparr>,
      w_local = \<lparr>ls_files = [''x_a.txt''], ls_meta = [], ls_mkdir_ok = True,
                 ls_query_ok = True, ls_locked = [], ls_meta_locked = []\<rparr>\<rparr>"




text \<open>
  The local storage answers when the constructor and the query go through. A local
  copy is unlinked when its id is that of no document of the table and its \<open>unlink\<close>
  does not raise; it is counted when, moreover, its metadata file is absent or can be
  unlinked.
\<close>

definition storage_answers :: "local_storage \<Rightarrow> bool" where
  "storage_answers ls = (ls_mkdir_ok ls \<and> ls_query_ok ls)"

definition unlinked :: "database \<Rightarrow> local_storage \<Rightarrow> string \<Rightarrow> bool" where
  "unlinked db ls name = (is_orphan db name \<and> name \<notin> set (ls_locked ls))"

definition counted :: "database \<Rightarrow> local_storage \<Rightarrow> string \<Rightarrow> bool" where
  "counted db ls name =
     (unlinked db ls name \<and>
      \<not> (sync_json (file_box_id name) \<in> set (ls_meta ls) \<and>
         sync_json (file_box_id name) \<in> set (ls_meta_locked ls)))"

text \<open>
  For the loop of the cleanup over a list of names: a file that the loop unlinks, and
  a file whose metadata file is there and cannot be unlinked.
\<close>

definition removable :: "string list \<Rightarrow> local_storage \<Rightarrow> string \<Rightarrow> bool" where
  "removable indexed ls name = (file_box_id name \<notin> set indexed \<and> name \<notin> set (ls_locked ls))"

definition meta_stuck :: "local_storage \<Rightarrow> string \<Rightarrow> bool" where
  "meta_stuck ls name =
     (sync_json (file_box_id name) \<in> set (ls_meta ls) \<and>
      sync_json (file_box_id name) \<in> set (ls_meta_locked ls))"

text \<open>
  The local storage expected after the cleanup against the table \<open>db\<close>: the copies less
  those unlinked, the metadata files less those of an unlinked copy that can be
  unlinked, every other file kept in place.
\<close>

definition expected_storage :: "database \<Rightarrow> local_storage \<Rightarrow> local_storage" where
  "expected_storage db ls =
     ls\<lparr>ls_files := filter (\<lambda>n. \<not> unlinked db ls n) (ls_files ls),
        ls_meta := filter (\<lambda>m. \<not> (m \<notin> set (ls_meta_locked ls) \<and>
                                    (\<exists>n \<in> set (ls_files ls).
                                       unlinked db ls n \<and> m = sync_json (file_box_id n))))
                     (ls_meta ls)\<rparr>"






section \<open>Properties of the chunker\<close>

subsection \<open>The chunks do not depend on the metadata\<close>

lemma erase_create_chunk:
  "erase (create_chunk d t i a b md1) = erase (create_chunk d t i a b md2)"
  by (simp add: erase_def create_chunk_def)

lemma sentence_step_same:
  assumes "same_state s1 s2"
  shows "same_state (sentence_step cfg d md1 s1 x) (sentence_step cfg d md2 s2 x)"
  using assms erase_create_chunk [of d "ls_text s2" "ls_index s2" "ls_start s2" "ls_pos s2" md1 md2]
  unfolding same_state_def sentence_step_def Let_def
  by (cases "ls_text s2 = []") simp_all

lemma foldl_sentence_step_same:
  "same_state s1 s2 \<Longrightarrow>
   same_state (foldl (sentence_step cfg d md1) s1 xs) (foldl (sentence_step cfg d md2) s2 xs)"
proof (induction xs arbitrary: s1 s2)
  case Nil
  then show ?case by simp
next
  case (Cons x xs)
  show ?case
    unfolding foldl_Cons
    by (rule Cons.IH) (rule sentence_step_same [OF Cons.prems])
qed

lemma final_chunk_same:
  assumes "same_state s1 s2"
  shows "map erase (final_chunk cfg d md1 t s1) = map erase (final_chunk cfg d md2 t s2)"
  using assms
    erase_create_chunk [of d "ls_text s2" "ls_index s2" "ls_start s2" "int (length t)" md1 md2]
  unfolding same_state_def final_chunk_def
  by (cases "strip (ls_text s2) = []") simp_all

lemma same_state_init: "same_state init_state init_state"
  by (simp add: same_state_def)

lemma DocumentChunker_same:
  "map erase (DocumentChunker_chunk_document cfg d t md1) =
   map erase (DocumentChunker_chunk_document cfg d t md2)"
proof -
  have "map erase (final_chunk cfg d md1 t (foldl (sentence_step cfg d md1) init_state xs)) =
        map erase (final_chunk cfg d md2 t (foldl (sentence_step cfg d md2) init_state xs))"
    for xs
    by (intro final_chunk_same foldl_sentence_step_same same_state_init)
  then show ?thesis
    unfolding DocumentChunker_chunk_document_def Let_def
    by (cases "t = [] \<or> int (length (strip t)) < min_chunk_size cfg") simp_all
qed

lemma erase_renumber:
  "map erase cs1 = map erase cs2 \<Longrightarrow> map erase ps1 = map erase ps2 \<Longrightarrow>
   map erase (fst (foldl (renumber_step d) (cs1, i) ps1)) =
     map erase (fst (foldl (renumber_step d) (cs2, i) ps2)) \<and>
   snd (foldl (renumber_step d) (cs1, i) ps1) = snd (foldl (renumber_step d) (cs2, i) ps2)"
proof (induction ps1 arbitrary: ps2 cs1 cs2 i)
  case Nil
  then show ?case by simp
next
  case (Cons p ps1)
  then obtain q qs where ps2: "ps2 = q # qs" by (cases ps2) auto
  with Cons.prems have pq: "erase p = erase q" and rest: "map erase ps1 = map erase qs"
    by simp_all
  have e: "erase (p\<lparr>chunk_id := x, metadata := m1\<rparr>) = erase (q\<lparr>chunk_id := x, metadata := m2\<rparr>)"
    for x m1 m2
    using pq by (cases p, cases q) (simp add: erase_def)
  have cs: "map erase (cs1 @ [p\<lparr>chunk_id := x, metadata := m1\<rparr>]) =
            map erase (cs2 @ [q\<lparr>chunk_id := x, metadata := m2\<rparr>])" for x m1 m2
    using Cons.prems(1) e by simp
  have step: "renumber_step d (cs, i) c =
      (cs @ [c\<lparr>chunk_id := d @ ''#chunk_'' @ str_int i,
                   metadata := AList.update ''chunk_index'' (MInt i)
                     (AList.update ''parent_doc_id'' (MStr d) (metadata c))\<rparr>], i + 1)"
    for cs c
    by (simp add: renumber_step_def)
  show ?case
    unfolding ps2 foldl_Cons step
    by (rule Cons.IH [OF cs rest])
qed

lemma paragraph_step_same:
  assumes "same_state s1 s2"
  shows "same_state (paragraph_step cfg d md1 s1 x) (paragraph_step cfg d md2 s2 x)"
proof -
  let ?pc1 = "DocumentChunker_chunk_document cfg (d @ ''_para_'' @ str_int (ls_index s2)) x md1"
  let ?pc2 = "DocumentChunker_chunk_document cfg (d @ ''_para_'' @ str_int (ls_index s2)) x md2"
  from assms have eq: "ls_text s1 = ls_text s2" "ls_start s1 = ls_start s2"
     "ls_index s1 = ls_index s2" "ls_pos s1 = ls_pos s2"
    and ch: "map erase (ls_chunks s1) = map erase (ls_chunks s2)"
    by (simp_all add: same_state_def)
  have pc: "map erase ?pc1 = map erase ?pc2" by (rule DocumentChunker_same)
  have ec: "erase (create_chunk d (ls_text s2) (ls_index s2) (ls_start s2) (ls_pos s2) md1) =
            erase (create_chunk d (ls_text s2) (ls_index s2) (ls_start s2) (ls_pos s2) md2)"
    by (rule erase_create_chunk)
  have cs: "map erase (ls_chunks s1 @ [create_chunk d (ls_text s2) (ls_index s2) (ls_start s2) (ls_pos s2) md1])
      = map erase (ls_chunks s2 @ [create_chunk d (ls_text s2) (ls_index s2) (ls_start s2) (ls_pos s2) md2])"
    using ch ec by simp
  note r = erase_renumber [OF cs pc, of d "ls_index s2"]
  show ?thesis
    using r ch ec
    unfolding same_state_def paragraph_step_def Let_def eq
    by (cases "ls_text s2 = []") (simp_all add: split_beta eq)
qed

lemma foldl_paragraph_step_same:
  "same_state s1 s2 \<Longrightarrow>
   same_state (foldl (paragraph_step cfg d md1) s1 xs) (foldl (paragraph_step cfg d md2) s2 xs)"
proof (induction xs arbitrary: s1 s2)
  case Nil
  then show ?case by simp
next
  case (Cons x xs)
  show ?case
    unfolding foldl_Cons
    by (rule Cons.IH) (rule paragraph_step_same [OF Cons.prems])
qed

lemma SmartChunker_same:
  "map erase (SmartChunker_chunk_document cfg d t md1) =
   map erase (SmartChunker_chunk_document cfg d t md2)"
proof -
  have "map erase (final_chunk cfg d md1 t (foldl (paragraph_step cfg d md1) init_state xs)) =
        map erase (final_chunk cfg d md2 t (foldl (paragraph_step cfg d md2) init_state xs))"
    for xs
    by (intro final_chunk_same foldl_paragraph_step_same same_state_init)
  then show ?thesis
    using DocumentChunker_same [of cfg d t md1 md2]
    unfolding SmartChunker_chunk_document_def Let_def
    by (cases "t = [] \<or> int (length (strip t)) < min_chunk_size cfg") simp_all
qed


text \<open>
  Claim C4. Chunking is a function of the document id, the text and the configuration:
  whatever metadata accompanies the call, the chunks have the same identifiers, texts,
  boundaries, ordinals and token counts. A text whose stripped length is below
  \<open>min_chunk_size\<close> yields no chunk, from \<open>SmartChunker\<close> and from
  \<open>DocumentChunker\<close> alike.
\<close>

theorem chunk_document_deterministic_short_empty:
  "map erase (SmartChunker_chunk_document cfg d t md1) =
     map erase (SmartChunker_chunk_document cfg d t md2) \<and>
   (int (length (strip t)) < min_chunk_size cfg \<longrightarrow>
      SmartChunker_chunk_document cfg d t md1 = [] \<and>
      DocumentChunker_chunk_document cfg d t md1 = [])"
  using SmartChunker_same [of cfg d t md1 md2]
  by (simp add: SmartChunker_chunk_document_def DocumentChunker_chunk_document_def)

theorem chunk_document_deterministic_short_empty_witness:
  "int (length (strip ''  too short to chunk  '')) < min_chunk_size default_chunker \<and>
   SmartChunker_chunk_document default_chunker ''doc'' ''  too short to chunk  '' [] = [] \<and>
   DocumentChunker_chunk_document default_chunker ''doc'' ''  too short to chunk  '' [] = []"
proof -
  have h: "int (length (strip ''  too short to chunk  '')) < min_chunk_size default_chunker"
    by (simp add: strip_def lstrip_def rstrip_def is_space_def default_chunker_def)
  from chunk_document_deterministic_short_empty
    [of default_chunker "''doc''" "''  too short to chunk  ''" "[]" "[]"] h
  show ?thesis by blast
qed

subsection \<open>Ordinals after a paragraph is split\<close>

text \<open>
  Claim C1. With the configuration \<open>small_chunker\<close> the document \<open>two_paragraphs\<close>
  yields three chunks. The first closes the first paragraph with ordinal 0; the second
  paragraph is split by sentences, and its first chunk is given the identifier of
  ordinal 0 again, because \<open>chunk_index\<close> is not advanced between closing the running
  chunk and renumbering the chunks of the split paragraph. The field \<open>chunk_index\<close> of
  the renumbered chunks keeps the ordinal of the inner call.
\<close>

theorem smart_chunker_repeats_ordinal:
  "map (\<lambda>c. (chunk_id c, chunk_index c))
     (SmartChunker_chunk_document small_chunker ''doc'' two_paragraphs []) =
   [(''doc#chunk_0'', 0), (''doc#chunk_0'', 0), (''doc#chunk_1'', 1)]"
  by code_simp

section \<open>Properties of the remote enumerator\<close>

lemma concat_paginate:
  "0 < l \<Longrightarrow> concat (paginate l k xs) = drop k xs"
proof (induction l k xs rule: paginate.induct)
  case (1 limit offset xs)
  show ?case
  proof (cases "take limit (drop offset xs) = []")
    case True
    with 1 show ?thesis by (simp add: paginate.simps [of limit offset xs] Let_def)
  next
    case False
    show ?thesis
    proof (cases "length (take limit (drop offset xs)) < limit")
      case True
      with False show ?thesis by (simp add: paginate.simps [of limit offset xs] Let_def)
    next
      case ge: False
      then have len: "length (take limit (drop offset xs)) = limit" by simp
      have "concat (paginate limit offset xs) =
            take limit (drop offset xs) @ drop (offset + limit) xs"
        using False ge 1 len by (simp add: paginate.simps [of limit offset xs] Let_def)
      also have "\<dots> = drop offset xs"
        by (metis add.commute append_take_drop_id drop_drop)
      finally show ?thesis .
    qed
  qed
qed

lemma pages_all: "concat (paginate page_limit 0 xs) = xs"
  by (simp add: concat_paginate page_limit_def)

lemma walk_entries_sound:
  "\<forall>item \<in> set (fst (walk_entries cfg path es)).
     \<exists>pf \<in> set (concat (map (all_files path) es)).
       kept cfg pf \<and> item = make_item (fst pf) (snd pf)"
proof (induction cfg path es rule: walk_entries.induct)
  case (1 cfg path)
  then show ?case by simp
next
  case (2 cfg path fid nm ok children es)
  let ?sp = "if path \<noteq> [] then path @ ''/'' @ name_or_empty nm else name_or_empty nm"
  let ?sub = "walk_entries cfg ?sp children"
  let ?A = "set (concat (map (all_files ?sp) children))"
  let ?B = "set (concat (map (all_files path) es))"
  have u: "set (concat (map (all_files path) (EFolder fid nm ok children # es))) = ?A \<union> ?B"
    by simp
  show ?case
  proof (cases ok)
    case True
    have ih1: "\<forall>item \<in> set (fst ?sub).
        \<exists>pf \<in> set (concat (map (all_files ?sp) children)).
          kept cfg pf \<and> item = make_item (fst pf) (snd pf)"
      using "2.IH"(1) [OF refl refl True] by (simp only: pages_all)
    show ?thesis
    proof (cases "snd ?sub")
      case s: True
      have ih2: "\<forall>item \<in> set (fst (walk_entries cfg path es)).
          \<exists>pf \<in> set (concat (map (all_files path) es)).
            kept cfg pf \<and> item = make_item (fst pf) (snd pf)"
        using "2.IH"(2) [OF refl refl refl] s True by (simp add: pages_all)
      have w: "fst (walk_entries cfg path (EFolder fid nm ok children # es)) =
               fst ?sub @ fst (walk_entries cfg path es)"
        using True s by (simp add: pages_all Let_def)
      show ?thesis
      proof
        fix item
        assume "item \<in> set (fst (walk_entries cfg path (EFolder fid nm ok children # es)))"
        then have "item \<in> set (fst ?sub) \<or> item \<in> set (fst (walk_entries cfg path es))"
          unfolding w by simp
        then obtain pf where "pf \<in> ?A \<union> ?B" "kept cfg pf" "item = make_item (fst pf) (snd pf)"
          using ih1 ih2 by blast
        then show "\<exists>pf \<in> set (concat (map (all_files path) (EFolder fid nm ok children # es))).
                    kept cfg pf \<and> item = make_item (fst pf) (snd pf)"
          unfolding u by blast
      qed
    next
      case s: False
      have w: "fst (walk_entries cfg path (EFolder fid nm ok children # es)) = fst ?sub"
        using True s by (simp add: pages_all Let_def)
      show ?thesis
      proof
        fix item
        assume "item \<in> set (fst (walk_entries cfg path (EFolder fid nm ok children # es)))"
        then have "item \<in> set (fst ?sub)"
          unfolding w by simp
        then obtain pf where "pf \<in> ?A \<union> ?B" "kept cfg pf" "item = make_item (fst pf) (snd pf)"
          using ih1 by blast
        then show "\<exists>pf \<in> set (concat (map (all_files path) (EFolder fid nm ok children # es))).
                    kept cfg pf \<and> item = make_item (fst pf) (snd pf)"
          unfolding u by blast
      qed
    qed
  next
    case False
    then show ?thesis by simp
  qed
next
  case (3 cfg path f es)
  show ?case
  proof (cases "fe_item_status f = Some ''trashed'' \<or>
                \<not> allowed cfg (name_or_empty (fe_name f)) (fe_size f)")
    case True
    with 3 show ?thesis by auto
  next
    case False
    with 3 show ?thesis by (auto simp: Let_def kept_def)
  qed
next
  case (4 cfg path es)
  then show ?case by simp
qed

lemma walk_entries_complete:
  "list_all requests_ok es \<Longrightarrow>
   walk_entries cfg path es =
     (map (\<lambda>pf. make_item (fst pf) (snd pf))
        (filter (kept cfg) (concat (map (all_files path) es))), True)"
proof (induction cfg path es rule: walk_entries.induct)
  case (1 cfg path)
  then show ?case by simp
next
  case (2 cfg path fid nm ok children es)
  then show ?case
    by (simp add: pages_all Let_def)
next
  case (3 cfg path f es)
  then show ?case
    by (simp add: Let_def kept_def)
next
  case (4 cfg path es)
  then show ?case by simp
qed


lemma kept_item:
  assumes "kept cfg pf" and "item = make_item (fst pf) (snd pf)"
  shows "(norm_exts cfg \<noteq> [] \<longrightarrow> extension (fi_name item) \<in> set (norm_exts cfg)) \<and>
         (\<forall>m s. max_size cfg = Some m \<longrightarrow> size_bytes item = Some s \<longrightarrow> s \<le> m) \<and>
         fe_item_status (snd pf) \<noteq> Some ''trashed''"
proof -
  from assms(1) have a: "allowed cfg (name_or_empty (fe_name (snd pf))) (fe_size (snd pf))"
    and t: "fe_item_status (snd pf) \<noteq> Some ''trashed''"
    by (simp_all add: kept_def)
  have n: "fi_name item = name_or_empty (fe_name (snd pf))" "size_bytes item = fe_size (snd pf)"
    using assms(2) by (simp_all add: make_item_def)
  from a have e: "norm_exts cfg \<noteq> [] \<longrightarrow> extension (fi_name item) \<in> set (norm_exts cfg)"
    unfolding n allowed_def by (auto split: if_splits)
  from a have m: "\<forall>m s. max_size cfg = Some m \<longrightarrow> size_bytes item = Some s \<longrightarrow> s \<le> m"
    unfolding n allowed_def by (auto split: if_splits option.splits)
  from e m t show ?thesis by blast
qed

lemma walk_folder_sound:
  "\<forall>item \<in> set (fst (walk_folder cfg path listing)).
     \<exists>pf \<in> set (concat (map (all_files path) (snd listing))).
       kept cfg pf \<and> item = make_item (fst pf) (snd pf)"
  using walk_entries_sound [of cfg path "snd listing"]
  by (cases listing) (simp add: walk_folder_def pages_all)

lemma walk_folder_complete:
  "fst listing \<Longrightarrow> list_all requests_ok (snd listing) \<Longrightarrow>
   walk_folder cfg path listing =
     (map (\<lambda>pf. make_item (fst pf) (snd pf))
        (filter (kept cfg) (concat (map (all_files path) (snd listing)))), True)"
  using walk_entries_complete [of "snd listing" cfg path]
  by (cases listing) (simp add: walk_folder_def pages_all)

lemma walk_roots_sound:
  "\<forall>item \<in> set (fst (walk_roots cfg remote ids)).
     \<exists>pf \<in> set (concat (map (\<lambda>fid. concat (map (all_files []) (snd (remote fid)))) ids)).
       kept cfg pf \<and> item = make_item (fst pf) (snd pf)"
proof (induction ids)
  case Nil
  then show ?case by simp
next
  case (Cons fid ids)
  let ?A = "set (concat (map (all_files []) (snd (remote fid))))"
  let ?B = "set (concat (map (\<lambda>fid. concat (map (all_files []) (snd (remote fid)))) ids))"
  have u: "set (concat (map (\<lambda>fid. concat (map (all_files []) (snd (remote fid)))) (fid # ids)))
           = ?A \<union> ?B"
    by simp
  have w: "set (fst (walk_roots cfg remote (fid # ids))) \<subseteq>
           set (fst (walk_folder cfg [] (remote fid))) \<union> set (fst (walk_roots cfg remote ids))"
    by (auto simp: Let_def)
  show ?case
  proof
    fix item
    assume "item \<in> set (fst (walk_roots cfg remote (fid # ids)))"
    with w have "item \<in> set (fst (walk_folder cfg [] (remote fid))) \<or>
                 item \<in> set (fst (walk_roots cfg remote ids))"
      by blast
    then obtain pf where "pf \<in> ?A \<union> ?B" "kept cfg pf" "item = make_item (fst pf) (snd pf)"
      using walk_folder_sound [of cfg "[]" "remote fid"] Cons.IH by blast
    then show "\<exists>pf \<in> set (concat (map (\<lambda>fid. concat (map (all_files []) (snd (remote fid))))
                   (fid # ids))). kept cfg pf \<and> item = make_item (fst pf) (snd pf)"
      unfolding u by blast
  qed
qed

lemma walk_roots_complete:
  "list_all (\<lambda>fid. fst (remote fid) \<and> list_all requests_ok (snd (remote fid))) ids \<Longrightarrow>
   walk_roots cfg remote ids =
     (map (\<lambda>pf. make_item (fst pf) (snd pf))
        (filter (kept cfg)
           (concat (map (\<lambda>fid. concat (map (all_files []) (snd (remote fid)))) ids))), True)"
  by (induction ids) (simp_all add: walk_folder_complete Let_def)

text \<open>
  Claim C9. Every item that \<open>list_all_items\<close> yields has its extension in the normalised
  allow-list when that list is not empty, has a size within the configured maximum when
  both are known, and comes from a file entry of the remote tree that is not trashed.
  When no request fails, the yielded items are exactly the files of the whole tree that
  pass the filter, in the order of the walk: every folder is entered, whatever its name
  and whatever the filters.
\<close>

theorem list_all_items_filtering:
  "(\<forall>item \<in> set (fst (list_all_items cfg remote)).
      (norm_exts cfg \<noteq> [] \<longrightarrow> extension (fi_name item) \<in> set (norm_exts cfg)) \<and>
      (\<forall>m s. max_size cfg = Some m \<longrightarrow> size_bytes item = Some s \<longrightarrow> s \<le> m) \<and>
      (\<exists>pf \<in> set (root_files cfg remote).
          fe_item_status (snd pf) \<noteq> Some ''trashed'' \<and> item = make_item (fst pf) (snd pf))) \<and>
   (roots_ok cfg remote \<longrightarrow>
      list_all_items cfg remote =
        (map (\<lambda>pf. make_item (fst pf) (snd pf)) (filter (kept cfg) (root_files cfg remote)),
         True))"
proof (intro conjI ballI impI)
  fix item
  assume "item \<in> set (fst (list_all_items cfg remote))"
  then obtain pf where pf: "pf \<in> set (root_files cfg remote)" "kept cfg pf"
      "item = make_item (fst pf) (snd pf)"
    using walk_roots_sound [of cfg remote "root_ids cfg"]
    unfolding list_all_items_def root_files_def root_ids_def by blast
  note k = kept_item [OF pf(2) pf(3)]
  from k show "norm_exts cfg \<noteq> [] \<Longrightarrow> extension (fi_name item) \<in> set (norm_exts cfg)"
    by blast
  from k show "\<forall>m s. max_size cfg = Some m \<longrightarrow> size_bytes item = Some s \<longrightarrow> s \<le> m"
    by blast
  from k pf show "\<exists>pf \<in> set (root_files cfg remote).
      fe_item_status (snd pf) \<noteq> Some ''trashed'' \<and> item = make_item (fst pf) (snd pf)"
    by blast
next
  assume "roots_ok cfg remote"
  then show "list_all_items cfg remote =
        (map (\<lambda>pf. make_item (fst pf) (snd pf)) (filter (kept cfg) (root_files cfg remote)),
         True)"
    using walk_roots_complete [of remote "root_ids cfg" cfg]
    unfolding list_all_items_def root_files_def root_ids_def roots_ok_def by simp
qed

lemma fixture_items:
  "list_all_items fixture_config fixture_remote =
     ([make_item ''Sub.txt'' \<lparr>fe_id = ''f2'', fe_name = Some ''File2.pdf'', fe_size = Some 20,
                    fe_sha1 = Some ''def'', fe_item_status = None\<rparr>,
       make_item [] \<lparr>fe_id = ''f1'', fe_name = Some ''File1.Pdf'', fe_size = Some 10,
                 fe_sha1 = Some ''abc'', fe_item_status = Some ''active''\<rparr>], True)"
  by code_simp

lemma fixture_ok: "roots_ok fixture_config fixture_remote"
  by code_simp


theorem list_all_items_filtering_witness:
  "roots_ok fixture_config fixture_remote \<and>
   norm_exts fixture_config = [''pdf''] \<and>
   max_size fixture_config = Some 1048576 \<and>
   map fi_id (fst (list_all_items fixture_config fixture_remote)) = [''f2'', ''f1''] \<and>
   map (\<lambda>i. extension (fi_name i)) (fst (list_all_items fixture_config fixture_remote))
     = [''pdf'', ''pdf''] \<and>
   map size_bytes (fst (list_all_items fixture_config fixture_remote)) = [Some 20, Some 10] \<and>
   list_all_items fixture_config fixture_remote =
     (map (\<lambda>pf. make_item (fst pf) (snd pf))
        (filter (kept fixture_config) (root_files fixture_config fixture_remote)), True)"
proof -
  have ok: "roots_ok fixture_config fixture_remote" by (rule fixture_ok)
  have n: "norm_exts fixture_config = [''pdf'']" by code_simp
  have m: "max_size fixture_config = Some 1048576" by code_simp
  have i: "map fi_id (fst (list_all_items fixture_config fixture_remote)) = [''f2'', ''f1'']"
    unfolding fixture_items by (simp add: make_item_def)
  have e: "map (\<lambda>i. extension (fi_name i)) (fst (list_all_items fixture_config fixture_remote))
     = [''pdf'', ''pdf'']"
    unfolding fixture_items by code_simp
  have z: "map size_bytes (fst (list_all_items fixture_config fixture_remote)) = [Some 20, Some 10]"
    unfolding fixture_items by (simp add: make_item_def)
  from list_all_items_filtering [of fixture_config fixture_remote] ok
  have "list_all_items fixture_config fixture_remote =
     (map (\<lambda>pf. make_item (fst pf) (snd pf))
        (filter (kept fixture_config) (root_files fixture_config fixture_remote)), True)"
    by blast
  with ok n m i e z show ?thesis by blast
qed

section \<open>Properties of hybrid search\<close>

lemma strip_blank:
  assumes "\<forall>c \<in> set s. is_space c"
  shows "strip s = []"
proof -
  from assms have d: "dropWhile is_space s = []"
    by (induction s) simp_all
  show ?thesis
    unfolding strip_def lstrip_def rstrip_def d by simp
qed

text \<open>
  Claim C10. For a query that is empty or holds white space only, \<open>hybrid_search\<close>
  returns the raw result with no hit and a time of 0, and calls neither the embedding
  model nor the index, whatever the size, the weights and the filters.
\<close>

theorem hybrid_search_blank_query:
  "\<forall>c \<in> set query. is_space c \<Longrightarrow>
   hybrid_search self query size_n semantic_weight keyword_weight filters = (Raw [] 0 None, [])"
  by (simp add: hybrid_search_def strip_blank)

theorem hybrid_search_blank_query_witness:
  "list_all is_space [CHR '' '', CHR 0x09, CHR 0x0A] \<and>
   hybrid_search answering_index [CHR '' '', CHR 0x09, CHR 0x0A] 10 (1/2) (1/2) None
     = (Raw [] 0 None, []) \<and>
   snd (hybrid_search answering_index ''box'' 10 (1/2) (1/2) None) \<noteq> []"
proof -
  have s: "list_all is_space [CHR '' '', CHR 0x09, CHR 0x0A]"
    by (simp add: is_space_def)
  then have "\<forall>c \<in> set [CHR '' '', CHR 0x09, CHR 0x0A]. is_space c"
    by (simp only: list_all_iff)
  from hybrid_search_blank_query [OF this, of answering_index 10 "1/2" "1/2" None]
  have e: "hybrid_search answering_index [CHR '' '', CHR 0x09, CHR 0x0A] 10 (1/2) (1/2) None
     = (Raw [] 0 None, [])" .
  have n: "snd (hybrid_search answering_index ''box'' 10 (1/2) (1/2) None) \<noteq> []"
    by (simp add: hybrid_search_def strip_def lstrip_def rstrip_def is_space_def
        answering_index_def hybrid_search_with_embeddings_def Let_def or_default_def)
  from s e n show ?thesis by blast
qed

section \<open>Properties of token resolution\<close>

lemma finish_token_fails: "finish_token a = Inl NoAccessToken \<longleftrightarrow> \<not> truthy a"
  by (simp add: finish_token_def truthy_def split: option.splits)

lemma finish_token_error: "finish_token a = Inl e \<Longrightarrow> e = NoAccessToken"
  by (simp add: finish_token_def split: option.splits if_splits)

lemma finish_token_returns: "finish_token x = Inr a \<longleftrightarrow> x = Some a \<and> a \<noteq> []"
  by (auto simp: finish_token_def split: option.splits)

lemma need_refresh_eq:
  "need_refresh env val =
     (case expiry_error env val of Some e \<Rightarrow> Inl e | None \<Rightarrow> Inr (refresh_due env val))"
  by (cases val)
     (auto simp: need_refresh_def refresh_due_def expiry_error_def parse_expires_at_def
        instant_def refresh_margin_def Let_def split: option.splits)

lemma token_expiry_error:
  assumes "expiry_error env (expires_at c) = Some e"
  shows "get_valid_access_token env store cid c =
           \<lparr>result = Inl e, creds_after = c, store_after = store, exchanges = 0\<rparr>"
  unfolding get_valid_access_token_def Let_def need_refresh_eq assms by simp

lemma token_no_exchange:
  assumes "expiry_error env (expires_at c) = None"
    and "\<not> (refresh_due env (expires_at c) \<and> truthy (py_or (refresh_token c) (box_refresh_token c)))"
  shows "get_valid_access_token env store cid c =
           \<lparr>result = finish_token (py_or (access_token c) (box_access_token c)),
            creds_after = c, store_after = store, exchanges = 0\<rparr>"
  using assms(2) unfolding get_valid_access_token_def Let_def need_refresh_eq assms(1) by auto

lemma token_exchange_fails:
  assumes "expiry_error env (expires_at c) = None"
    and "refresh_due env (expires_at c)"
    and "truthy (py_or (refresh_token c) (box_refresh_token c))"
    and "refresh_tokens env (py_or (client_id c) (env_client_id env))
           (py_or (client_secret c) (env_client_secret env))
           (case py_or (refresh_token c) (box_refresh_token c) of None \<Rightarrow> [] | Some r \<Rightarrow> r) = Inl err"
  shows "get_valid_access_token env store cid c =
           \<lparr>result = finish_token (py_or (access_token c) (box_access_token c)),
            creds_after = c, store_after = store, exchanges = 1\<rparr>"
  using assms(2,3) unfolding get_valid_access_token_def Let_def need_refresh_eq assms(1,4) by simp

lemma token_exchange_answers:
  assumes "expiry_error env (expires_at c) = None"
    and "refresh_due env (expires_at c)"
    and "truthy (py_or (refresh_token c) (box_refresh_token c))"
    and "refresh_tokens env (py_or (client_id c) (env_client_id env))
           (py_or (client_secret c) (env_client_secret env))
           (case py_or (refresh_token c) (box_refresh_token c) of None \<Rightarrow> [] | Some r \<Rightarrow> r) = Inr t"
  shows "get_valid_access_token env store cid c =
           \<lparr>result = finish_token (py_or (tk_access_token t)
                                     (py_or (access_token c) (box_access_token c))),
            creds_after =
              c\<lparr>access_token := py_or (tk_access_token t) (py_or (access_token c) (box_access_token c)),
                refresh_token := py_or (tk_refresh_token t)
                                   (py_or (refresh_token c) (box_refresh_token c)),
                expires_at := stored_exp env (tk_expires_at t),
                client_id := py_or (client_id c) (env_client_id env),
                client_secret := py_or (client_secret c) (env_client_secret env)\<rparr>,
            store_after =
              (if db_write_ok env
               then update_credential store cid
                 (c\<lparr>access_token := py_or (tk_access_token t)
                                       (py_or (access_token c) (box_access_token c)),
                    refresh_token := py_or (tk_refresh_token t)
                                       (py_or (refresh_token c) (box_refresh_token c)),
                    expires_at := stored_exp env (tk_expires_at t),
                    client_id := py_or (client_id c) (env_client_id env),
                    client_secret := py_or (client_secret c) (env_client_secret env)\<rparr>)
               else store),
            exchanges = 1\<rparr>"
  using assms(2,3) unfolding get_valid_access_token_def Let_def need_refresh_eq assms(1,4) by simp

text \<open>
  Claim C2, as the specification states it, fails: an expired access token is returned
  when there is no refresh token, and when the exchange is rejected.
\<close>

theorem expired_token_is_returned:
  "refresh_due failing_provider (expires_at expired_no_refresh) \<and>
   \<not> truthy (py_or (refresh_token expired_no_refresh) (box_refresh_token expired_no_refresh)) \<and>
   result (get_valid_access_token failing_provider Map.empty 1 expired_no_refresh) = Inr ''AT'' \<and>
   exchanges (get_valid_access_token failing_provider Map.empty 1 expired_with_refresh) = 1 \<and>
   result (get_valid_access_token failing_provider Map.empty 1 expired_with_refresh) = Inr ''AT''"
  by (simp add: get_valid_access_token_def need_refresh_def parse_expires_at_def
      refresh_due_def replace_Z_def failing_provider_def expired_no_refresh_def
      expired_with_refresh_def py_or_def truthy_def instant_def refresh_margin_def
      datetime_min_def finish_token_def Let_def)

text \<open>
  Claim C2, amended. When no refresh token is stored, or when the exchange that the step
  makes (with the client id, the client secret and the refresh token that it computes)
  raises, the step leaves the credential and the credential table as they are, and:
  it raises \<open>AttributeError\<close> when the stored expiry is neither null nor a string, and
  \<open>OverflowError\<close> when it is a string that parses to a date less than five minutes after
  \<open>datetime.min\<close>; otherwise it returns the stored access token, expired or not, and it
  fails, with the error for a missing access token, exactly when no access token is
  stored.
\<close>

theorem token_failure_without_refresh:
  assumes "\<not> truthy (py_or (refresh_token c) (box_refresh_token c)) \<or>
           (\<exists>err. refresh_tokens env (py_or (client_id c) (env_client_id env))
                     (py_or (client_secret c) (env_client_secret env))
                     (case py_or (refresh_token c) (box_refresh_token c) of
                        None \<Rightarrow> [] | Some r \<Rightarrow> r) = Inl err)"
  shows "result (get_valid_access_token env store cid c) =
           (case expiry_error env (expires_at c) of
              Some e \<Rightarrow> Inl e
            | None \<Rightarrow> finish_token (py_or (access_token c) (box_access_token c))) \<and>
         (\<forall>a. result (get_valid_access_token env store cid c) = Inr a \<longleftrightarrow>
                expiry_error env (expires_at c) = None \<and>
                py_or (access_token c) (box_access_token c) = Some a \<and> a \<noteq> []) \<and>
         (result (get_valid_access_token env store cid c) = Inl NoAccessToken \<longleftrightarrow>
            expiry_error env (expires_at c) = None \<and>
            \<not> truthy (py_or (access_token c) (box_access_token c))) \<and>
         creds_after (get_valid_access_token env store cid c) = c \<and>
         store_after (get_valid_access_token env store cid c) = store"
proof (cases "expiry_error env (expires_at c)")
  case (Some e)
  have "e \<noteq> NoAccessToken"
    using Some by (auto simp: expiry_error_def split: json_exp.splits option.splits if_splits)
  then show ?thesis
    unfolding token_expiry_error [OF Some] Some by auto
next
  case None
  let ?refresh = "py_or (refresh_token c) (box_refresh_token c)"
  let ?out = "get_valid_access_token env store cid c"
  have out: "result ?out = finish_token (py_or (access_token c) (box_access_token c)) \<and>
             creds_after ?out = c \<and> store_after ?out = store"
  proof (cases "refresh_due env (expires_at c) \<and> truthy ?refresh")
    case False
    show ?thesis
      unfolding token_no_exchange [OF None False] by simp
  next
    case True
    with assms obtain err where
      "refresh_tokens env (py_or (client_id c) (env_client_id env))
         (py_or (client_secret c) (env_client_secret env))
         (case ?refresh of None \<Rightarrow> [] | Some r \<Rightarrow> r) = Inl err"
      by blast
    from token_exchange_fails [OF None conjunct1 [OF True] conjunct2 [OF True] this]
    show ?thesis by simp
  qed
  then show ?thesis
    unfolding None by (simp add: finish_token_fails finish_token_returns)
qed

theorem token_failure_without_refresh_witness:
  "truthy (py_or (refresh_token expired_with_refresh) (box_refresh_token expired_with_refresh)) \<and>
   refresh_tokens failing_provider
     (py_or (client_id expired_with_refresh) (env_client_id failing_provider))
     (py_or (client_secret expired_with_refresh) (env_client_secret failing_provider))
     (case py_or (refresh_token expired_with_refresh) (box_refresh_token expired_with_refresh) of
        None \<Rightarrow> [] | Some r \<Rightarrow> r) = Inl ''400 Bad Request'' \<and>
   expiry_error failing_provider (expires_at expired_with_refresh) = None \<and>
   result (get_valid_access_token failing_provider [1 \<mapsto> expired_with_refresh] 1
             expired_with_refresh) = Inr ''AT'' \<and>
   store_after (get_valid_access_token failing_provider [1 \<mapsto> expired_with_refresh] 1
                  expired_with_refresh) = [1 \<mapsto> expired_with_refresh]"
proof -
  have r: "truthy (py_or (refresh_token expired_with_refresh)
             (box_refresh_token expired_with_refresh))"
    by (simp add: expired_with_refresh_def expired_no_refresh_def py_or_def truthy_def)
  have x: "refresh_tokens failing_provider
     (py_or (client_id expired_with_refresh) (env_client_id failing_provider))
     (py_or (client_secret expired_with_refresh) (env_client_secret failing_provider))
     (case py_or (refresh_token expired_with_refresh) (box_refresh_token expired_with_refresh) of
        None \<Rightarrow> [] | Some r \<Rightarrow> r) = Inl ''400 Bad Request''"
    by (simp add: failing_provider_def)
  have e: "expiry_error failing_provider (expires_at expired_with_refresh) = None"
    by (simp add: expiry_error_def failing_provider_def expired_with_refresh_def
        expired_no_refresh_def replace_Z_def datetime_min_def)
  have a: "py_or (access_token expired_with_refresh) (box_access_token expired_with_refresh) =
             Some ''AT''"
    by (simp add: expired_with_refresh_def expired_no_refresh_def py_or_def truthy_def)
  have h: "\<not> truthy (py_or (refresh_token expired_with_refresh)
                  (box_refresh_token expired_with_refresh)) \<or>
           (\<exists>err. refresh_tokens failing_provider
              (py_or (client_id expired_with_refresh) (env_client_id failing_provider))
              (py_or (client_secret expired_with_refresh) (env_client_secret failing_provider))
              (case py_or (refresh_token expired_with_refresh)
                      (box_refresh_token expired_with_refresh) of
                 None \<Rightarrow> [] | Some r \<Rightarrow> r) = Inl err)"
    using x by blast
  note th = token_failure_without_refresh [OF h,
      where store = "[1 \<mapsto> expired_with_refresh]" and cid = 1]
  from th e a have res: "result (get_valid_access_token failing_provider
      [1 \<mapsto> expired_with_refresh] 1 expired_with_refresh) = Inr ''AT''"
    by (simp add: finish_token_def)
  from th have st: "store_after (get_valid_access_token failing_provider
      [1 \<mapsto> expired_with_refresh] 1 expired_with_refresh) = [1 \<mapsto> expired_with_refresh]"
    by blast
  from r x e res st show ?thesis by blast
qed

text \<open>
  Claim C3, as the specification states it, fails in four ways. For an expired
  credential without a refresh token no exchange is made. When the exchange answers
  and the \<open>UPDATE\<close> of the credential row raises, the new access token is returned while
  the row keeps the old credential. For a credential whose expiry is a JSON number, and
  for one that expires at the first instant of the year 1, the step raises before any
  exchange, although a refresh token is stored.
\<close>

theorem no_exchange_without_refresh_token:
  "refresh_due failing_provider (expires_at expired_no_refresh) \<and>
   exchanges (get_valid_access_token failing_provider Map.empty 1 expired_no_refresh) = 0 \<and>
   exchanges (get_valid_access_token answering_provider_db_down [1 \<mapsto> expired_with_refresh] 1
                expired_with_refresh) = 1 \<and>
   result (get_valid_access_token answering_provider_db_down [1 \<mapsto> expired_with_refresh] 1
             expired_with_refresh) = Inr ''AT2'' \<and>
   access_token (creds_after (get_valid_access_token answering_provider_db_down
      [1 \<mapsto> expired_with_refresh] 1 expired_with_refresh)) = Some ''AT2'' \<and>
   store_after (get_valid_access_token answering_provider_db_down [1 \<mapsto> expired_with_refresh] 1
                  expired_with_refresh) 1 = Some expired_with_refresh \<and>
   access_token expired_with_refresh = Some ''AT'' \<and>
   refresh_due answering_provider (expires_at numeric_expiry) \<and>
   truthy (py_or (refresh_token numeric_expiry) (box_refresh_token numeric_expiry)) \<and>
   exchanges (get_valid_access_token answering_provider [1 \<mapsto> numeric_expiry] 1
                numeric_expiry) = 0 \<and>
   result (get_valid_access_token answering_provider [1 \<mapsto> numeric_expiry] 1
             numeric_expiry) = Inl AttributeError \<and>
   refresh_due year_one_parser (expires_at earliest_expiry) \<and>
   truthy (py_or (refresh_token earliest_expiry) (box_refresh_token earliest_expiry)) \<and>
   exchanges (get_valid_access_token year_one_parser [1 \<mapsto> earliest_expiry] 1
                earliest_expiry) = 0 \<and>
   result (get_valid_access_token year_one_parser [1 \<mapsto> earliest_expiry] 1
             earliest_expiry) = Inl OverflowError"
  by (simp add: get_valid_access_token_def need_refresh_def parse_expires_at_def
      refresh_due_def replace_Z_def failing_provider_def answering_provider_def
      answering_provider_db_down_def year_one_parser_def expired_no_refresh_def
      expired_with_refresh_def numeric_expiry_def earliest_expiry_def
      py_or_def truthy_def instant_def refresh_margin_def datetime_min_def
      finish_token_def stored_exp_def update_credential_def Let_def)

text \<open>
  Claim C3, amended. The step raises before any exchange when the stored expiry is
  neither null nor a string (\<open>AttributeError\<close>) or is a string that parses to a date less
  than five minutes after \<open>datetime.min\<close> (\<open>OverflowError\<close>). Otherwise it makes one
  refresh-token exchange when the refresh is due and a refresh token is stored, and
  none when it is not due or no refresh token is stored. When the exchange answers, the
  credential holds the access token of the answer (the prior one if the answer has
  none), the refresh token of the answer (the prior one if the answer has none), the
  expiry of the answer and the client id and secret used, its other entries are as
  before, and the access token of the credential is the result. When the
  \<open>UPDATE\<close> goes through, the row of the credential, if the table has it, holds the
  updated credential when the step returns and the other rows are as before; when the
  \<open>UPDATE\<close> raises, the exception is caught, the table is as before, and the step still
  returns the new access token.
\<close>

theorem refresh_exchange_and_persist:
  "exchanges (get_valid_access_token env store cid c) =
     (if expiry_error env (expires_at c) = None \<and> refresh_due env (expires_at c) \<and>
         truthy (py_or (refresh_token c) (box_refresh_token c))
      then 1 else 0) \<and>
   (\<forall>e. expiry_error env (expires_at c) = Some e \<longrightarrow>
        result (get_valid_access_token env store cid c) = Inl e \<and>
        creds_after (get_valid_access_token env store cid c) = c \<and>
        store_after (get_valid_access_token env store cid c) = store) \<and>
   (\<forall>t. expiry_error env (expires_at c) = None \<and> refresh_due env (expires_at c) \<and>
        truthy (py_or (refresh_token c) (box_refresh_token c)) \<and>
        refresh_tokens env (py_or (client_id c) (env_client_id env))
          (py_or (client_secret c) (env_client_secret env))
          (case py_or (refresh_token c) (box_refresh_token c) of
             None \<Rightarrow> [] | Some r \<Rightarrow> r) = Inr t \<longrightarrow>
        creds_after (get_valid_access_token env store cid c) =
          c\<lparr>access_token :=
              py_or (tk_access_token t) (py_or (access_token c) (box_access_token c)),
            refresh_token :=
              py_or (tk_refresh_token t) (py_or (refresh_token c) (box_refresh_token c)),
            expires_at := stored_exp env (tk_expires_at t),
            client_id := py_or (client_id c) (env_client_id env),
            client_secret := py_or (client_secret c) (env_client_secret env)\<rparr> \<and>
        result (get_valid_access_token env store cid c) =
          finish_token (access_token (creds_after (get_valid_access_token env store cid c))) \<and>
        store_after (get_valid_access_token env store cid c) =
          (if db_write_ok env \<and> store cid \<noteq> None
           then store(cid \<mapsto> creds_after (get_valid_access_token env store cid c))
           else store))"
proof (cases "expiry_error env (expires_at c)")
  case (Some e)
  show ?thesis
    unfolding token_expiry_error [OF Some] Some by simp
next
  case None
  let ?refresh = "py_or (refresh_token c) (box_refresh_token c)"
  let ?ex = "refresh_tokens env (py_or (client_id c) (env_client_id env))
                (py_or (client_secret c) (env_client_secret env))
                (case ?refresh of None \<Rightarrow> [] | Some r \<Rightarrow> r)"
  show ?thesis
  proof (cases "refresh_due env (expires_at c) \<and> truthy ?refresh")
    case False
    show ?thesis
      unfolding token_no_exchange [OF None False] None using False by auto
  next
    case True
    note d = conjunct1 [OF True] and r = conjunct2 [OF True]
    show ?thesis
    proof (cases ?ex)
      case (Inl err)
      show ?thesis
        unfolding token_exchange_fails [OF None d r Inl] None Inl using True by simp
    next
      case (Inr t)
      show ?thesis
        unfolding token_exchange_answers [OF None d r Inr] None Inr using True
        by (simp add: update_credential_def)
    qed
  qed
qed

theorem refresh_exchange_and_persist_witness:
  "expiry_error answering_provider (expires_at expired_with_refresh) = None \<and>
   refresh_due answering_provider (expires_at expired_with_refresh) \<and>
   truthy (py_or (refresh_token expired_with_refresh) (box_refresh_token expired_with_refresh)) \<and>
   db_write_ok answering_provider \<and>
   exchanges (get_valid_access_token answering_provider [1 \<mapsto> expired_with_refresh] 1
      expired_with_refresh) = 1 \<and>
   refresh_token (creds_after (get_valid_access_token answering_provider
      [1 \<mapsto> expired_with_refresh] 1 expired_with_refresh)) = Some ''RT'' \<and>
   access_token (creds_after (get_valid_access_token answering_provider
      [1 \<mapsto> expired_with_refresh] 1 expired_with_refresh)) = Some ''AT2'' \<and>
   result (get_valid_access_token answering_provider [1 \<mapsto> expired_with_refresh] 1
      expired_with_refresh) = Inr ''AT2'' \<and>
   store_after (get_valid_access_token answering_provider [1 \<mapsto> expired_with_refresh] 1
      expired_with_refresh) =
     [1 \<mapsto> creds_after (get_valid_access_token answering_provider
      [1 \<mapsto> expired_with_refresh] 1 expired_with_refresh)]"
proof -
  let ?out = "get_valid_access_token answering_provider [1 \<mapsto> expired_with_refresh] 1
      expired_with_refresh"
  have a: "expiry_error answering_provider (expires_at expired_with_refresh) = None"
    by (simp add: expiry_error_def answering_provider_def failing_provider_def
        expired_with_refresh_def expired_no_refresh_def replace_Z_def datetime_min_def)
  have d: "refresh_due answering_provider (expires_at expired_with_refresh)"
    by (simp add: refresh_due_def replace_Z_def failing_provider_def answering_provider_def
        expired_no_refresh_def expired_with_refresh_def instant_def)
  have r: "truthy (py_or (refresh_token expired_with_refresh)
             (box_refresh_token expired_with_refresh))"
    by (simp add: expired_with_refresh_def expired_no_refresh_def py_or_def truthy_def)
  have w: "db_write_ok answering_provider"
    by (simp add: answering_provider_def failing_provider_def)
  have s: "[1 \<mapsto> expired_with_refresh] (1::nat) \<noteq> None" by simp
  have x: "refresh_tokens answering_provider
             (py_or (client_id expired_with_refresh) (env_client_id answering_provider))
             (py_or (client_secret expired_with_refresh) (env_client_secret answering_provider))
             (case py_or (refresh_token expired_with_refresh)
                     (box_refresh_token expired_with_refresh) of None \<Rightarrow> [] | Some r \<Rightarrow> r) =
           Inr \<lparr>tk_access_token = Some ''AT2'', tk_refresh_token = None,
                tk_expires_at = TokDatetime \<lparr>dt_fields = 7200000000, dt_offset = Some 0\<rparr>\<rparr>"
    by (simp add: answering_provider_def)
  have pa: "py_or (Some ''AT2'') (py_or (access_token expired_with_refresh)
              (box_access_token expired_with_refresh)) = Some ''AT2''"
    by (simp add: py_or_def truthy_def)
  have pr: "py_or None (py_or (refresh_token expired_with_refresh)
              (box_refresh_token expired_with_refresh)) = Some ''RT''"
    by (simp add: expired_with_refresh_def expired_no_refresh_def py_or_def truthy_def)
  note th = refresh_exchange_and_persist [of answering_provider
      "[1 \<mapsto> expired_with_refresh]" 1 expired_with_refresh]
  from th a d r have e: "exchanges ?out = 1"
    by simp
  from th a d r x have
    "creds_after ?out =
       expired_with_refresh\<lparr>access_token :=
           py_or (tk_access_token \<lparr>tk_access_token = Some ''AT2'', tk_refresh_token = None,
                tk_expires_at = TokDatetime \<lparr>dt_fields = 7200000000, dt_offset = Some 0\<rparr>\<rparr>)
             (py_or (access_token expired_with_refresh) (box_access_token expired_with_refresh)),
         refresh_token :=
           py_or (tk_refresh_token \<lparr>tk_access_token = Some ''AT2'', tk_refresh_token = None,
                tk_expires_at = TokDatetime \<lparr>dt_fields = 7200000000, dt_offset = Some 0\<rparr>\<rparr>)
             (py_or (refresh_token expired_with_refresh) (box_refresh_token expired_with_refresh)),
         expires_at := stored_exp answering_provider
           (tk_expires_at \<lparr>tk_access_token = Some ''AT2'', tk_refresh_token = None,
                tk_expires_at = TokDatetime \<lparr>dt_fields = 7200000000, dt_offset = Some 0\<rparr>\<rparr>),
         client_id := py_or (client_id expired_with_refresh) (env_client_id answering_provider),
         client_secret := py_or (client_secret expired_with_refresh)
                            (env_client_secret answering_provider)\<rparr> \<and>
     result ?out = finish_token (access_token (creds_after ?out)) \<and>
     store_after ?out =
       (if db_write_ok answering_provider \<and> [1 \<mapsto> expired_with_refresh] (1::nat) \<noteq> None
        then [1 \<mapsto> expired_with_refresh](1 \<mapsto> creds_after ?out)
        else [1 \<mapsto> expired_with_refresh])"
    by blast
  then have k: "access_token (creds_after ?out) = Some ''AT2''"
    and k2: "refresh_token (creds_after ?out) = Some ''RT''"
    and k3: "result ?out = finish_token (access_token (creds_after ?out))"
    and p: "store_after ?out = [1 \<mapsto> creds_after ?out]"
    using w by (simp_all add: pa pr)
  from k k3 have res: "result ?out = Inr ''AT2''"
    by (simp add: finish_token_def)
  from a d r w e k2 k res p show ?thesis by blast
qed

section \<open>Properties of the listing pass\<close>

lemma foldl_process_item_count:
  "documents_processed (foldl (process_item cc a) st items) =
     documents_processed st + int (length items)"
  by (induction items arbitrary: st) (simp_all add: process_item_def Let_def)

lemma foldl_process_item_tables:
  "db_attempt (lp_db (foldl (process_item cc a) st items)) = db_attempt (lp_db st) \<and>
   db_cc_pair (lp_db (foldl (process_item cc a) st items)) = db_cc_pair (lp_db st)"
  by (induction items arbitrary: st) (simp_all add: process_item_def Let_def)

lemma foldl_process_item_queue:
  "length (lp_queue (foldl (process_item cc a) st items)) = length (lp_queue st) + length items"
  by (induction items arbitrary: st) (simp_all add: process_item_def Let_def)

text \<open>
  Claim C6, as the specification states it, fails: a pass that lists one document which
  the store already holds records one newly indexed document and adds one to the
  cumulative counter of the scope, although no document is new.
\<close>

theorem known_document_is_counted:
  "new_documents synced_db [known_item] = [] \<and>
   map_option at_new_docs_indexed
     (db_attempt (lp_db (listing_pass 1 7 100 synced_db [known_item])) 7) = Some 1 \<and>
   map_option cp_total_docs_indexed
     (db_cc_pair (lp_db (listing_pass 1 7 100 synced_db [known_item])) 1) = Some (Some 2)"
  by (simp add: listing_pass_def process_item_def mark_success_def new_documents_def
      synced_db_def known_item_def box_doc_id_def Let_def)

text \<open>
  Claim C6, amended. When the listing pass completes, the run is marked \<open>SUCCESS\<close> with
  \<open>new_docs_indexed\<close> equal to the number of items listed in this pass, each of which
  has been handed to document processing whether or not the store already held it; the
  last successful time of the scope is set, its last status is \<open>SUCCESS\<close> and its
  cumulative counter has grown by the same number.
\<close>

theorem listing_pass_counts_items:
  assumes "db_attempt db attempt_id = Some a" and "db_cc_pair db cc_pair_id = Some p"
  shows "db_attempt (lp_db (listing_pass cc_pair_id attempt_id t db items)) attempt_id =
           Some (a\<lparr>at_status := ''SUCCESS'', at_new_docs_indexed := int (length items)\<rparr>) \<and>
         db_cc_pair (lp_db (listing_pass cc_pair_id attempt_id t db items)) cc_pair_id =
           Some (p\<lparr>cp_last_successful_index_time := Some t,
                   cp_last_attempt_status := Some ''SUCCESS'',
                   cp_total_docs_indexed :=
                     Some ((case cp_total_docs_indexed p of None \<Rightarrow> 0 | Some n \<Rightarrow> n)
                           + int (length items))\<rparr>) \<and>
         length (lp_queue (listing_pass cc_pair_id attempt_id t db items)) = length items"
  using assms
    foldl_process_item_count [of cc_pair_id attempt_id
      "\<lparr>documents_processed = 0, lp_db = db, lp_queue = []\<rparr>" items]
    foldl_process_item_tables [of cc_pair_id attempt_id
      "\<lparr>documents_processed = 0, lp_db = db, lp_queue = []\<rparr>" items]
    foldl_process_item_queue [of cc_pair_id attempt_id
      "\<lparr>documents_processed = 0, lp_db = db, lp_queue = []\<rparr>" items]
  by (simp add: listing_pass_def mark_success_def Let_def)

theorem listing_pass_counts_items_witness:
  "db_attempt synced_db 7 =
     Some \<lparr>at_status = ''IN_PROGRESS'', at_new_docs_indexed = 0, at_error_msg = None\<rparr> \<and>
   db_cc_pair synced_db 1 =
     Some \<lparr>cp_credential_id = 1, cp_last_successful_index_time = None,
           cp_last_attempt_status = None, cp_total_docs_indexed = Some 1\<rparr> \<and>
   db_attempt (lp_db (listing_pass 1 7 100 synced_db [known_item, known_item])) 7 =
     Some \<lparr>at_status = ''SUCCESS'', at_new_docs_indexed = 2, at_error_msg = None\<rparr>"
proof -
  have a: "db_attempt synced_db 7 =
     Some \<lparr>at_status = ''IN_PROGRESS'', at_new_docs_indexed = 0, at_error_msg = None\<rparr>"
    by (simp add: synced_db_def)
  have p: "db_cc_pair synced_db 1 =
     Some \<lparr>cp_credential_id = 1, cp_last_successful_index_time = None,
           cp_last_attempt_status = None, cp_total_docs_indexed = Some 1\<rparr>"
    by (simp add: synced_db_def)
  from listing_pass_counts_items [OF a p, of 100 "[known_item, known_item]"]
  have "db_attempt (lp_db (listing_pass 1 7 100 synced_db [known_item, known_item])) 7 =
     Some \<lparr>at_status = ''SUCCESS'', at_new_docs_indexed = 2, at_error_msg = None\<rparr>"
    by simp
  with a p show ?thesis by blast
qed

section \<open>Properties of pruning\<close>

subsection \<open>The loop over the tables\<close>





subsection \<open>The loop over the index\<close>





subsection \<open>The loop over the local copies\<close>

lemma cleanup_step_eq:
  "cleanup_step idx (ls, k) n =
     (if n \<in> set (ls_files ls) \<and> removable idx ls n
      then (ls\<lparr>ls_files := filter (\<lambda>x. x \<noteq> n) (ls_files ls),
               ls_meta := filter (\<lambda>m. \<not> (m \<notin> set (ls_meta_locked ls) \<and>
                                          m = sync_json (file_box_id n))) (ls_meta ls)\<rparr>,
            k + (if meta_stuck ls n then 0 else 1))
      else (ls, k))"
proof (cases "n \<in> set (ls_files ls) \<and> removable idx ls n")
  case False
  then show ?thesis
    by (auto simp: cleanup_step_def removable_def)
next
  case True
  let ?m = "sync_json (file_box_id n)"
  have keep: "filter (\<lambda>m. \<not> (m \<notin> set (ls_meta_locked ls) \<and> m = ?m)) (ls_meta ls) = ls_meta ls"
    if "?m \<notin> set (ls_meta ls) \<or> ?m \<in> set (ls_meta_locked ls)"
    using that by (auto simp: filter_id_conv)
  have drop: "filter (\<lambda>m. \<not> (m \<notin> set (ls_meta_locked ls) \<and> m = ?m)) (ls_meta ls) =
              filter (\<lambda>m. m \<noteq> ?m) (ls_meta ls)"
    if "?m \<notin> set (ls_meta_locked ls)"
    using that by (auto intro: filter_cong)
  consider (absent) "?m \<notin> set (ls_meta ls)"
    | (stuck) "?m \<in> set (ls_meta ls)" "?m \<in> set (ls_meta_locked ls)"
    | (free) "?m \<in> set (ls_meta ls)" "?m \<notin> set (ls_meta_locked ls)"
    by blast
  then show ?thesis
  proof cases
    case absent
    with True keep show ?thesis
      by (simp add: cleanup_step_def removable_def meta_stuck_def Let_def)
  next
    case stuck
    with True keep show ?thesis
      by (simp add: cleanup_step_def removable_def meta_stuck_def Let_def)
  next
    case free
    with True drop show ?thesis
      by (simp add: cleanup_step_def removable_def meta_stuck_def Let_def)
  qed
qed

lemma foldl_cleanup_step:
  "foldl (cleanup_step idx) (ls, k) ns =
     (ls\<lparr>ls_files := filter (\<lambda>x. \<not> (x \<in> set ns \<and> removable idx ls x)) (ls_files ls),
         ls_meta := filter (\<lambda>m. \<not> (m \<notin> set (ls_meta_locked ls) \<and>
                                    (\<exists>x \<in> set ns. x \<in> set (ls_files ls) \<and> removable idx ls x \<and>
                                       m = sync_json (file_box_id x))))
                      (ls_meta ls)\<rparr>,
      k + int (card {x \<in> set ns. x \<in> set (ls_files ls) \<and> removable idx ls x \<and>
                                  \<not> meta_stuck ls x}))"
proof (induction ns arbitrary: ls k)
  case Nil
  show ?case by simp
next
  case (Cons n ns)
  show ?case
  proof (cases "n \<in> set (ls_files ls) \<and> removable idx ls n")
    case False
    have files: "filter (\<lambda>x. \<not> (x \<in> set ns \<and> removable idx ls x)) (ls_files ls) =
                 filter (\<lambda>x. \<not> (x \<in> set (n # ns) \<and> removable idx ls x)) (ls_files ls)"
      using False by (auto intro: filter_cong)
    have meta: "filter (\<lambda>m. \<not> (m \<notin> set (ls_meta_locked ls) \<and>
                                 (\<exists>x \<in> set ns. x \<in> set (ls_files ls) \<and> removable idx ls x \<and>
                                    m = sync_json (file_box_id x))))
                   (ls_meta ls) =
                filter (\<lambda>m. \<not> (m \<notin> set (ls_meta_locked ls) \<and>
                                 (\<exists>x \<in> set (n # ns). x \<in> set (ls_files ls) \<and> removable idx ls x \<and>
                                    m = sync_json (file_box_id x))))
                   (ls_meta ls)"
      using False by (auto intro: filter_cong)
    have cnt: "{x \<in> set ns. x \<in> set (ls_files ls) \<and> removable idx ls x \<and> \<not> meta_stuck ls x} =
               {x \<in> set (n # ns). x \<in> set (ls_files ls) \<and> removable idx ls x \<and>
                                    \<not> meta_stuck ls x}"
      using False by auto
    have "cleanup_step idx (ls, k) n = (ls, k)"
      unfolding cleanup_step_eq using False by (simp only: if_False simp_thms)
    then have "foldl (cleanup_step idx) (ls, k) (n # ns) = foldl (cleanup_step idx) (ls, k) ns"
      by simp
    also have "\<dots> =
       (ls\<lparr>ls_files := filter (\<lambda>x. \<not> (x \<in> set ns \<and> removable idx ls x)) (ls_files ls),
           ls_meta := filter (\<lambda>m. \<not> (m \<notin> set (ls_meta_locked ls) \<and>
                                 (\<exists>x \<in> set ns. x \<in> set (ls_files ls) \<and> removable idx ls x \<and>
                                    m = sync_json (file_box_id x))))
                   (ls_meta ls)\<rparr>,
        k + int (card {x \<in> set ns. x \<in> set (ls_files ls) \<and> removable idx ls x \<and>
                                    \<not> meta_stuck ls x}))"
      by (rule Cons.IH)
    also have "\<dots> =
       (ls\<lparr>ls_files := filter (\<lambda>x. \<not> (x \<in> set (n # ns) \<and> removable idx ls x)) (ls_files ls),
           ls_meta := filter (\<lambda>m. \<not> (m \<notin> set (ls_meta_locked ls) \<and>
                                 (\<exists>x \<in> set (n # ns). x \<in> set (ls_files ls) \<and> removable idx ls x \<and>
                                    m = sync_json (file_box_id x))))
                   (ls_meta ls)\<rparr>,
        k + int (card {x \<in> set (n # ns). x \<in> set (ls_files ls) \<and> removable idx ls x \<and>
                                    \<not> meta_stuck ls x}))"
      by (simp only: files meta cnt)
    finally show ?thesis .
  next
    case True
    let ?ls1 = "ls\<lparr>ls_files := filter (\<lambda>x. x \<noteq> n) (ls_files ls),
                  ls_meta := filter (\<lambda>m. \<not> (m \<notin> set (ls_meta_locked ls) \<and>
                                             m = sync_json (file_box_id n))) (ls_meta ls)\<rparr>"
    have rem: "removable idx ?ls1 x = removable idx ls x" for x
      by (simp add: removable_def)
    have stuck: "meta_stuck ?ls1 x = meta_stuck ls x" for x
      by (auto simp: meta_stuck_def)
    have files: "filter (\<lambda>x. \<not> (x \<in> set ns \<and> removable idx ls x)) (ls_files ?ls1) =
                 filter (\<lambda>x. \<not> (x \<in> set (n # ns) \<and> removable idx ls x)) (ls_files ls)"
      using True by (auto intro: filter_cong)
    have meta: "filter (\<lambda>m. \<not> (m \<notin> set (ls_meta_locked ?ls1) \<and>
                                 (\<exists>x \<in> set ns. x \<in> set (ls_files ?ls1) \<and> removable idx ls x \<and>
                                    m = sync_json (file_box_id x))))
                   (ls_meta ?ls1) =
                filter (\<lambda>m. \<not> (m \<notin> set (ls_meta_locked ls) \<and>
                                 (\<exists>x \<in> set (n # ns). x \<in> set (ls_files ls) \<and> removable idx ls x \<and>
                                    m = sync_json (file_box_id x))))
                   (ls_meta ls)"
      using True by (auto intro: filter_cong)
    let ?S = "{x \<in> set ns. x \<in> set (ls_files ?ls1) \<and> removable idx ls x \<and> \<not> meta_stuck ls x}"
    let ?T = "{x \<in> set (n # ns). x \<in> set (ls_files ls) \<and> removable idx ls x \<and>
                                   \<not> meta_stuck ls x}"
    have fin: "finite ?S" by simp
    have notin: "n \<notin> ?S" by simp
    have T: "?T = (if meta_stuck ls n then ?S else insert n ?S)"
      using True by auto
    have cnt: "(if meta_stuck ls n then 0 else 1) + int (card ?S) = int (card ?T)"
      unfolding T using fin notin by simp
    have "cleanup_step idx (ls, k) n = (?ls1, k + (if meta_stuck ls n then 0 else 1))"
      unfolding cleanup_step_eq using True by (simp only: if_True simp_thms)
    then have "foldl (cleanup_step idx) (ls, k) (n # ns) =
          foldl (cleanup_step idx) (?ls1, k + (if meta_stuck ls n then 0 else 1)) ns"
      by simp
    also have "\<dots> =
          (?ls1\<lparr>ls_files := filter (\<lambda>x. \<not> (x \<in> set ns \<and> removable idx ls x)) (ls_files ?ls1),
                ls_meta := filter (\<lambda>m. \<not> (m \<notin> set (ls_meta_locked ?ls1) \<and>
                                 (\<exists>x \<in> set ns. x \<in> set (ls_files ?ls1) \<and> removable idx ls x \<and>
                                    m = sync_json (file_box_id x))))
                   (ls_meta ?ls1)\<rparr>,
           k + (if meta_stuck ls n then 0 else 1) + int (card ?S))"
      by (simp only: Cons.IH rem stuck)
    also have "\<dots> =
          (ls\<lparr>ls_files := filter (\<lambda>x. \<not> (x \<in> set (n # ns) \<and> removable idx ls x)) (ls_files ls),
              ls_meta := filter (\<lambda>m. \<not> (m \<notin> set (ls_meta_locked ls) \<and>
                                 (\<exists>x \<in> set (n # ns). x \<in> set (ls_files ls) \<and> removable idx ls x \<and>
                                    m = sync_json (file_box_id x))))
                   (ls_meta ls)\<rparr>,
           k + int (card ?T))"
      using cnt by (simp only: files meta) simp
    finally show ?thesis .
  qed
qed

lemma clean_up_local_files_eq:
  "clean_up_local_files db ls =
     (if storage_answers ls
      then (expected_storage db ls, int (card {n \<in> set (ls_files ls). counted db ls n}))
      else (ls, 0))"
proof (cases "storage_answers ls")
  case False
  then show ?thesis
    by (auto simp: clean_up_local_files_def LocalStorage_def cleanup_orphaned_files_def
        get_indexed_documents_def storage_answers_def)
next
  case True
  let ?ns = "filter (\<lambda>name. CHR ''_'' \<in> set name) (ls_files ls)"
  have u: "(x \<in> set ?ns \<and> removable (indexed_ids db) ls x) = unlinked db ls x"
    if "x \<in> set (ls_files ls)" for x
    using that by (auto simp: unlinked_def is_orphan_def removable_def)
  have files: "filter (\<lambda>x. \<not> (x \<in> set ?ns \<and> removable (indexed_ids db) ls x)) (ls_files ls) =
               filter (\<lambda>n. \<not> unlinked db ls n) (ls_files ls)"
    using u by (auto intro: filter_cong)
  have ex: "(\<exists>x \<in> set ?ns. x \<in> set (ls_files ls) \<and> removable (indexed_ids db) ls x \<and>
                 m = sync_json (file_box_id x)) =
            (\<exists>n \<in> set (ls_files ls). unlinked db ls n \<and> m = sync_json (file_box_id n))" for m
    using u by auto
  have cnt: "{x \<in> set ?ns. x \<in> set (ls_files ls) \<and> removable (indexed_ids db) ls x \<and>
                            \<not> meta_stuck ls x} =
             {n \<in> set (ls_files ls). counted db ls n}"
    using u by (auto simp: counted_def meta_stuck_def)
  have "clean_up_local_files db ls = foldl (cleanup_step (indexed_ids db)) (ls, 0) ?ns"
    using True
    by (simp add: clean_up_local_files_def LocalStorage_def cleanup_orphaned_files_def
        get_indexed_documents_def storage_answers_def)
  also have "\<dots> = (expected_storage db ls, int (card {n \<in> set (ls_files ls). counted db ls n}))"
    unfolding foldl_cleanup_step files ex cnt expected_storage_def by simp
  finally show ?thesis using True by simp
qed

lemma is_orphan_documents:
  "db_document db1 = db_document db2 \<Longrightarrow> is_orphan db1 = is_orphan db2"
  by (rule ext) (simp add: is_orphan_def indexed_ids_def)

lemma clean_up_documents:
  assumes "db_document db1 = db_document db2"
  shows "clean_up_local_files db1 ls = clean_up_local_files db2 ls"
  unfolding clean_up_local_files_eq expected_storage_def counted_def unlinked_def
    is_orphan_documents [OF assms]
  by (rule refl)



subsection \<open>The pass\<close>



















text \<open>
  Claim C8. The document \<open>box:x\<close> is linked by the scopes 1 and 2 and is absent from the
  remote listing. Pruning scope 1 removes the link of scope 1 and keeps the Document
  Record and the link of scope 2, as the claim says, but it deletes the index entries
  of the document: the loop over the index runs over the whole difference, without the
  test for other scopes that guards the deletion of the record.
\<close>

theorem shared_document_loses_index_entries:
  "length (index_entries (w_index shared_world) ''box:x'') = 1 \<and>
   fst (prune_deleted_documents failing_provider test_remote shared_world 1) =
     Inr \<lparr>removed_from_db = 0, removed_local_files = 0, removed_from_es = 1\<rparr> \<and>
   map d_id (db_document (w_db (snd (prune_deleted_documents failing_provider test_remote
      shared_world 1)))) = [''box:x''] \<and>
   db_links (w_db (snd (prune_deleted_documents failing_provider test_remote shared_world 1))) =
     [(''box:x'', 2)] \<and>
   index_entries (w_index (snd (prune_deleted_documents failing_provider test_remote
      shared_world 1))) ''box:x'' = []"
  by code_simp

end
